theory Spec2Isabelle
  imports Main "HOL-Library.Word" "HOL-Library.AList"
begin

section \<open>Python values\<close>

text \<open>
  The module \<^verbatim>\<open>message_conversion.py\<close> converts between generated message objects and
  the value trees of a JSON decoder. It lists \<^verbatim>\<open>str\<close> and \<^verbatim>\<open>bytes\<close> as its string types
  and \<^verbatim>\<open>bool\<close>, \<^verbatim>\<open>int\<close>, \<^verbatim>\<open>float\<close> as its primitive types: these are the builtins of
  Python 3, where text and byte strings are two types and every integer is an \<^verbatim>\<open>int\<close>.
  The model follows Python 3.

  A value is one of the runtime kinds the module inspects with \<^verbatim>\<open>type(...)\<close>:
  \<^item> \<open>PFloat\<close> carries the 64 bits of the double; the module never computes with floats;
  \<^item> \<open>PStr\<close> is text and \<open>PBytes\<close> a byte string, both as lists of characters;
  \<^item> \<open>PDict\<close> is a dictionary with text keys, as an association list in iteration
    order (keys pairwise distinct);
  \<^item> \<open>PTime\<close> and \<open>PDuration\<close> are the clock library's objects with their two attributes
    \<^verbatim>\<open>secs\<close> and \<^verbatim>\<open>nsecs\<close>;
  \<^item> \<open>PMsg t slots\<close> is an instance of a generated message class: \<^verbatim>\<open>_type\<close> is \<open>t\<close>, and
    \<open>slots\<close> lists, in the order of \<^verbatim>\<open>__slots__\<close>, each slot's name, its entry in
    \<^verbatim>\<open>_slot_types\<close> and the attribute's current value (names pairwise distinct; a
    name that occurs twice stands for one attribute).
  Text is restricted to the characters of one byte.
\<close>

datatype pyval =
    PNone
  | PBool bool
  | PInt int
  | PFloat "64 word"
  | PStr string
  | PBytes string
  | PList "pyval list"
  | PTuple "pyval list"
  | PDict "(string \<times> pyval) list"
  | PTime pyval pyval
  | PDuration pyval pyval
  | PMsg string "(string \<times> string \<times> pyval) list"

datatype pytype =
    TNoneType | TBool | TInt | TFloat | TStr | TBytes | TList | TTuple | TDict
  | TTime | TDuration | TMsg string

fun type_of :: "pyval \<Rightarrow> pytype" where
  "type_of PNone = TNoneType"
| "type_of (PBool _) = TBool"
| "type_of (PInt _) = TInt"
| "type_of (PFloat _) = TFloat"
| "type_of (PStr _) = TStr"
| "type_of (PBytes _) = TBytes"
| "type_of (PList _) = TList"
| "type_of (PTuple _) = TTuple"
| "type_of (PDict _) = TDict"
| "type_of (PTime _ _) = TTime"
| "type_of (PDuration _ _) = TDuration"
| "type_of (PMsg t _) = TMsg t"

text \<open>\<^verbatim>\<open>str.split(sep)\<close> for a one-character separator: the empty string gives one empty segment.\<close>

fun split_on :: "char \<Rightarrow> string \<Rightarrow> string list" where
  "split_on c [] = [[]]"
| "split_on c (x # xs) =
     (if x = c then [] # split_on c xs
      else (case split_on c xs of
              [] \<Rightarrow> [[x]]
            | w # ws \<Rightarrow> (x # w) # ws))"

text \<open>The \<^verbatim>\<open>__name__\<close> of a type; a message class is named by the last segment of its type.\<close>

fun name_of :: "pytype \<Rightarrow> string" where
  "name_of TNoneType = ''NoneType''"
| "name_of TBool = ''bool''"
| "name_of TInt = ''int''"
| "name_of TFloat = ''float''"
| "name_of TStr = ''str''"
| "name_of TBytes = ''bytes''"
| "name_of TList = ''list''"
| "name_of TTuple = ''tuple''"
| "name_of TDict = ''dict''"
| "name_of TTime = ''Time''"
| "name_of TDuration = ''Duration''"
| "name_of (TMsg t) = last (split_on CHR ''/'' t)"

section \<open>Module constants\<close>

definition type_map :: "(string \<times> string list) list" where
  "type_map =
    [(''bool'', [''bool'']),
     (''int'', [''int8'', ''byte'', ''uint8'', ''char'',
               ''int16'', ''uint16'', ''int32'', ''uint32'',
               ''int64'', ''uint64'', ''float32'', ''float64'']),
     (''float'', [''float32'', ''float64'']),
     (''str'', [''string'']),
     (''unicode'', [''string'']),
     (''long'', [''uint64''])]"

definition primitive_types :: "pytype list" where
  "primitive_types = [TBool, TInt, TFloat]"

definition string_types :: "pytype list" where
  "string_types = [TStr, TBytes]"

definition list_types :: "pytype list" where
  "list_types = [TList, TTuple]"

definition ros_time_types :: "string list" where
  "ros_time_types = [''time'', ''duration'']"

definition ros_primitive_types :: "string list" where
  "ros_primitive_types =
    [''bool'', ''byte'', ''char'', ''int8'', ''uint8'', ''int16'',
     ''uint16'', ''int32'', ''uint32'', ''int64'', ''uint64'',
     ''float32'', ''float64'', ''string'']"

definition ros_header_types :: "string list" where
  "ros_header_types = [''Header'', ''std_msgs/Header'', ''roslib/Header'']"

definition ros_binary_types :: "string list" where
  "ros_binary_types = [''uint8[]'', ''char[]'']"

text \<open>
  \<^verbatim>\<open>list_braces.sub("", rostype)\<close> with \<^verbatim>\<open>list_braces = re.compile(r'\[[^\]]*\]')\<close>: every
  opening bracket that has a closing bracket after it is removed together with the text up to
  the first such closing bracket; an opening bracket with no closing bracket after it stays,
  and so does everything behind it.
\<close>

function list_braces_sub :: "string \<Rightarrow> string" where
  "list_braces_sub [] = []"
| "list_braces_sub (x # xs) =
     (if x = CHR ''['' then
        (if CHR '']'' \<in> set xs
         then list_braces_sub (tl (dropWhile (\<lambda>c. c \<noteq> CHR '']'') xs))
         else x # xs)
      else x # list_braces_sub xs)"
  by pat_completeness auto
termination
proof (relation "measure length")
  fix x :: char and xs :: string
  have "length (dropWhile (\<lambda>c. c \<noteq> CHR '']'') xs) \<le> length xs"
    by (rule length_dropWhile_le)
  then show "(tl (dropWhile (\<lambda>c. c \<noteq> CHR '']'') xs), x # xs) \<in> measure length"
    by simp
qed simp_all

section \<open>Exceptions\<close>

text \<open>
  An exception of a collaborator (the package loader, the import machinery): what \<^verbatim>\<open>str\<close>
  gives for it, and its \<^verbatim>\<open>message\<close> attribute when it has one.
\<close>

record exn =
  exn_str :: string
  exn_message :: "string option"

text \<open>
  The exceptions the module can end with: its own seven classes, carrying the arguments of
  their constructors, and the builtin ones that its own statements raise.
\<close>

datatype error =
    TypeError
  | AttributeError
  | KeyError
  | InvalidMessageException string
  | NonexistentFieldException string "string list"
  | FieldTypeMismatchException string "string list" string pytype
  | InvalidTypeStringException string
  | InvalidPackageException string string
  | InvalidModuleException string string string
  | InvalidClassException string string string string

text \<open>
  Calling an exception class runs its \<^verbatim>\<open>__init__\<close>, which can itself raise; the
  functions below give the exception that the \<^verbatim>\<open>raise\<close> statement ends with.
  \<^verbatim>\<open>InvalidMessageException.__init__(self, inst)\<close> has one required argument.
\<close>

fun new_InvalidMessageException :: "pyval list \<Rightarrow> error" where
  "new_InvalidMessageException [inst] = InvalidMessageException (name_of (type_of inst))"
| "new_InvalidMessageException _ = TypeError"

text \<open>\<^verbatim>\<open>InvalidPackageException.__init__\<close> reads \<^verbatim>\<open>original_exception.message\<close>.\<close>

definition new_InvalidPackageException :: "string \<Rightarrow> exn \<Rightarrow> error" where
  "new_InvalidPackageException package original_exception =
     (case exn_message original_exception of
        None \<Rightarrow> AttributeError
      | Some m \<Rightarrow> InvalidPackageException package m)"

definition new_InvalidModuleException :: "string \<Rightarrow> string \<Rightarrow> exn \<Rightarrow> error" where
  "new_InvalidModuleException modname subname original_exception =
     InvalidModuleException modname subname (exn_str original_exception)"

definition new_InvalidClassException :: "string \<Rightarrow> string \<Rightarrow> string \<Rightarrow> exn \<Rightarrow> error" where
  "new_InvalidClassException modname subname classname original_exception =
     InvalidClassException modname subname classname (exn_str original_exception)"

section \<open>Collaborators\<close>

text \<open>
  A generated class: its name and the instance its constructor returns when called with no
  arguments. Two classes are the same object when they are equal.
\<close>

datatype pyclass = PyClass (cls_name: string) (cls_new: pyval)

text \<open>
  What the module calls and does not define:
  \<^item> \<open>get_rostime\<close>: the clock, \<^verbatim>\<open>rospy.get_rostime()\<close>, as seconds and nanoseconds; one
    conversion call is taken to read one clock value;
  \<^item> \<open>standard_b64encode\<close>, \<open>standard_b64decode\<close>: the base64 library; decoding gives
    \<open>None\<close> where the library raises;
  \<^item> \<open>str_bytearray\<close>: \<^verbatim>\<open>str(bytearray(msg))\<close>, \<open>None\<close> where it raises;
  \<^item> \<open>load_manifest\<close>: \<^verbatim>\<open>roslib.launcher.load_manifest\<close>, giving the exception it raises,
    if any;
  \<^item> \<open>import_module modname subname\<close>: \<^verbatim>\<open>__import__('modname.subname')\<close>, the exception or
    the imported package;
  \<^item> the imported package answers \<^verbatim>\<open>getattr(getattr(pypkg, subname), classname)\<close> with the
    class or the exception.
\<close>

type_synonym pypkg = "string \<Rightarrow> string \<Rightarrow> exn + pyclass"

record env =
  get_rostime :: "int \<times> int"
  standard_b64encode :: "string \<Rightarrow> string"
  standard_b64decode :: "string \<Rightarrow> string option"
  str_bytearray :: "pyval \<Rightarrow> string option"
  load_manifest :: "string \<Rightarrow> exn option"
  import_module :: "string \<Rightarrow> string \<Rightarrow> exn + pypkg"

definition rostime_now :: "env \<Rightarrow> pyval" where
  "rostime_now e = (case get_rostime e of (s, n) \<Rightarrow> PTime (PInt s) (PInt n))"

section \<open>The type registry\<close>

text \<open>
  The caches \<^verbatim>\<open>_loaded_msgs\<close> and \<^verbatim>\<open>_loaded_srvs\<close> are dictionaries from type strings to
  classes. The functions that write to a cache return the new cache. The locks guard single
  reads and writes of the dictionary and do not change what a sequential run computes.
\<close>

type_synonym cache = "string \<rightharpoonup> pyclass"

definition get_from_cache :: "cache \<Rightarrow> string \<Rightarrow> pyclass option" where
  "get_from_cache cache key = (if key \<in> dom cache then cache key else None)"

definition add_to_cache :: "cache \<Rightarrow> string \<Rightarrow> pyclass \<Rightarrow> cache" where
  "add_to_cache cache key val = cache(key \<mapsto> val)"

definition splittype :: "string \<Rightarrow> error + string list" where
  "splittype typestring =
     (let splits = filter (\<lambda>x. x \<noteq> []) (split_on CHR ''/'' typestring)
      in if length splits = 2 then Inr splits
         else Inl (InvalidTypeStringException typestring))"

definition load_class :: "env \<Rightarrow> string \<Rightarrow> string \<Rightarrow> string \<Rightarrow> error + pyclass" where
  "load_class e modname subname classname =
     (case load_manifest e modname of
        Some exc \<Rightarrow> Inl (new_InvalidPackageException modname exc)
      | None \<Rightarrow>
         (case import_module e modname subname of
            Inl exc \<Rightarrow> Inl (new_InvalidModuleException modname subname exc)
          | Inr pypkg \<Rightarrow>
             (case pypkg subname classname of
                Inl exc \<Rightarrow> Inl (new_InvalidClassException modname subname classname exc)
              | Inr cls \<Rightarrow> Inr cls)))"

text \<open>
  \<^verbatim>\<open>_get_class\<close> returns the class or raises, and leaves the cache as the second component.
  The unpacking \<^verbatim>\<open>modname, classname = _splittype(typestring)\<close> is of a list of two.
\<close>

definition get_class :: "env \<Rightarrow> string \<Rightarrow> string \<Rightarrow> cache \<Rightarrow> (error + pyclass) \<times> cache" where
  "get_class e typestring subname cache =
     (case get_from_cache cache typestring of
        Some cls \<Rightarrow> (Inr cls, cache)
      | None \<Rightarrow>
         (case splittype typestring of
            Inl err \<Rightarrow> (Inl err, cache)
          | Inr splits \<Rightarrow>
             (let modname = splits ! 0;
                  classname = splits ! 1;
                  norm_typestring = modname @ ''/'' @ classname
              in case get_from_cache cache norm_typestring of
                   Some cls \<Rightarrow> (Inr cls, cache)
                 | None \<Rightarrow>
                    (case load_class e modname subname classname of
                       Inl err \<Rightarrow> (Inl err, cache)
                     | Inr cls \<Rightarrow>
                        (Inr cls,
                         add_to_cache (add_to_cache cache typestring cls)
                           norm_typestring cls)))))"

definition get_msg_class :: "env \<Rightarrow> string \<Rightarrow> cache \<Rightarrow> (error + pyclass) \<times> cache" where
  "get_msg_class e typestring loaded_msgs = get_class e typestring ''msg'' loaded_msgs"

definition get_srv_class :: "env \<Rightarrow> string \<Rightarrow> cache \<Rightarrow> (error + pyclass) \<times> cache" where
  "get_srv_class e typestring loaded_srvs = get_class e typestring ''srv'' loaded_srvs"

section \<open>Attributes and items\<close>

text \<open>
  \<^verbatim>\<open>getattr(inst, name)\<close> and \<^verbatim>\<open>setattr(inst, name, value)\<close> on the objects of the model. The
  time classes and the generated classes declare \<^verbatim>\<open>__slots__\<close>, so no other attribute can be
  set. \<open>setattr\<close> returns the object after the assignment.
\<close>

fun getattr :: "pyval \<Rightarrow> string \<Rightarrow> error + pyval" where
  "getattr (PTime s n) name =
     (if name = ''secs'' then Inr s else if name = ''nsecs'' then Inr n else Inl AttributeError)"
| "getattr (PDuration s n) name =
     (if name = ''secs'' then Inr s else if name = ''nsecs'' then Inr n else Inl AttributeError)"
| "getattr (PMsg t slots) name =
     (case map_of (map (\<lambda>(n, ty, v). (n, v)) slots) name of
        None \<Rightarrow> Inl AttributeError
      | Some v \<Rightarrow> Inr v)"
| "getattr _ name = Inl AttributeError"

fun setattr :: "pyval \<Rightarrow> string \<Rightarrow> pyval \<Rightarrow> error + pyval" where
  "setattr (PTime s n) name v =
     (if name = ''secs'' then Inr (PTime v n)
      else if name = ''nsecs'' then Inr (PTime s v) else Inl AttributeError)"
| "setattr (PDuration s n) name v =
     (if name = ''secs'' then Inr (PDuration v n)
      else if name = ''nsecs'' then Inr (PDuration s v) else Inl AttributeError)"
| "setattr (PMsg t slots) name v =
     (if name \<in> fst ` set slots
      then Inr (PMsg t (map (\<lambda>(n, ty, x). if n = name then (n, ty, v) else (n, ty, x)) slots))
      else Inl AttributeError)"
| "setattr _ name v = Inl AttributeError"

text \<open>\<^verbatim>\<open>dict(zip(inst.__slots__, inst._slot_types))\<close>; only generated classes have both.\<close>

fun inst_fields_of :: "pyval \<Rightarrow> error + (string \<times> string) list" where
  "inst_fields_of (PMsg t slots) = Inr (map (\<lambda>(n, ty, v). (n, ty)) slots)"
| "inst_fields_of _ = Inl AttributeError"

text \<open>\<^verbatim>\<open>sub in s\<close> for two strings.\<close>

fun contains_str :: "string \<Rightarrow> string \<Rightarrow> bool" where
  "contains_str sub [] = (sub = [])"
| "contains_str sub (y # ys) = (take (length sub) (y # ys) = sub \<or> contains_str sub ys)"

text \<open>\<^verbatim>\<open>field in msg\<close> and \<^verbatim>\<open>msg[field]\<close> for a text \<open>field\<close>.\<close>

fun py_contains :: "string \<Rightarrow> pyval \<Rightarrow> error + bool" where
  "py_contains field (PDict kvs) = Inr (field \<in> fst ` set kvs)"
| "py_contains field (PStr s) = Inr (contains_str field s)"
| "py_contains field (PList xs) = Inr (PStr field \<in> set xs)"
| "py_contains field (PTuple xs) = Inr (PStr field \<in> set xs)"
| "py_contains field _ = Inl TypeError"

fun py_getitem :: "pyval \<Rightarrow> string \<Rightarrow> error + pyval" where
  "py_getitem (PDict kvs) field =
     (case map_of kvs field of None \<Rightarrow> Inl KeyError | Some v \<Rightarrow> Inr v)"
| "py_getitem _ field = Inl TypeError"

section \<open>Serialization\<close>

text \<open>
  \<^verbatim>\<open>_from_inst\<close> and its helpers return the generic value or the exception raised.
  \<^verbatim>\<open>standard_b64encode\<close> takes a byte string and raises \<^verbatim>\<open>TypeError\<close> for anything else.
  The loop of \<^verbatim>\<open>_from_object_inst\<close> is \<open>from_fields\<close>, with the dictionary built so far.
\<close>

function (sequential) from_inst :: "env \<Rightarrow> pyval \<Rightarrow> string \<Rightarrow> error + pyval"
and from_list_inst :: "env \<Rightarrow> pyval \<Rightarrow> string \<Rightarrow> error + pyval"
and from_elems :: "env \<Rightarrow> pyval list \<Rightarrow> string \<Rightarrow> error + pyval list"
and from_object_inst :: "env \<Rightarrow> pyval \<Rightarrow> string \<Rightarrow> error + pyval"
and from_fields ::
  "env \<Rightarrow> (string \<times> string \<times> pyval) list \<Rightarrow> (string \<times> pyval) list \<Rightarrow> error + pyval"
where
  "from_inst e inst rostype =
     (if rostype \<in> set ros_binary_types then
        (case inst of
           PBytes bs \<Rightarrow> Inr (PBytes (standard_b64encode e bs))
         | _ \<Rightarrow> Inl TypeError)
      else if rostype \<in> set ros_time_types then
        (case getattr inst ''secs'' of
           Inl err \<Rightarrow> Inl err
         | Inr s \<Rightarrow>
            (case getattr inst ''nsecs'' of
               Inl err \<Rightarrow> Inl err
             | Inr n \<Rightarrow> Inr (PDict [(''secs'', s), (''nsecs'', n)])))
      else if rostype \<in> set ros_primitive_types then Inr inst
      else if type_of inst \<in> set list_types then from_list_inst e inst rostype
      else from_object_inst e inst rostype)"
| "from_list_inst e inst rostype =
     (case inst of
        PList xs \<Rightarrow>
          (if length xs = 0 then Inr (PList [])
           else let rostype' = list_braces_sub rostype
                in if rostype' \<in> set ros_primitive_types then Inr (PList xs)
                   else (case from_elems e xs rostype' of
                           Inl err \<Rightarrow> Inl err
                         | Inr ys \<Rightarrow> Inr (PList ys)))
      | PTuple xs \<Rightarrow>
          (if length xs = 0 then Inr (PList [])
           else let rostype' = list_braces_sub rostype
                in if rostype' \<in> set ros_primitive_types then Inr (PList xs)
                   else (case from_elems e xs rostype' of
                           Inl err \<Rightarrow> Inl err
                         | Inr ys \<Rightarrow> Inr (PList ys)))
      | _ \<Rightarrow> Inl TypeError)"
| "from_elems e [] rostype = Inr []"
| "from_elems e (x # xs) rostype =
     (case from_inst e x rostype of
        Inl err \<Rightarrow> Inl err
      | Inr y \<Rightarrow>
         (case from_elems e xs rostype of
            Inl err \<Rightarrow> Inl err
          | Inr ys \<Rightarrow> Inr (y # ys)))"
| "from_object_inst e inst rostype =
     (case inst of
        PMsg t slots \<Rightarrow> from_fields e slots []
      | _ \<Rightarrow> Inl AttributeError)"
| "from_fields e [] msg = Inr (PDict msg)"
| "from_fields e ((field_name, field_rostype, field_inst) # rest) msg =
     (case from_inst e field_inst field_rostype of
        Inl err \<Rightarrow> Inl err
      | Inr v \<Rightarrow> from_fields e rest (AList.update field_name v msg))"
  by pat_completeness auto
termination
  by (relation "measure (\<lambda>x. case x of
         Inl (Inl (e, inst, t)) \<Rightarrow> 3 * size inst + 2
       | Inl (Inr (e, inst, t)) \<Rightarrow> 3 * size inst + 1
       | Inr (Inl (e, xs, t)) \<Rightarrow> 3 * size (PList xs)
       | Inr (Inr (Inl (e, inst, t))) \<Rightarrow> 3 * size inst + 1
       | Inr (Inr (Inr (e, slots, msg))) \<Rightarrow> 3 * size (PMsg [] slots))")
     auto

text \<open>\<^verbatim>\<open>getattr(inst, "_type", None)\<close>: only the generated classes have the attribute.\<close>

fun rostype_of :: "pyval \<Rightarrow> string option" where
  "rostype_of (PMsg t slots) = Some t"
| "rostype_of _ = None"

text \<open>\<^verbatim>\<open>extract_values\<close> raises with \<^verbatim>\<open>InvalidMessageException()\<close>, a call with no argument.\<close>

definition extract_values :: "env \<Rightarrow> pyval \<Rightarrow> error + pyval" where
  "extract_values e inst =
     (case rostype_of inst of
        None \<Rightarrow> Inl (new_InvalidMessageException [])
      | Some rostype \<Rightarrow> from_inst e inst rostype)"

section \<open>Deserialization\<close>

text \<open>
  A deserializing call either returns a value or raises. The target \<^verbatim>\<open>inst\<close> is mutated in
  place, so what the caller's object looks like after a raise is part of the outcome:
  \<open>Raise err inst'\<close> carries the state of the object that was passed as \<^verbatim>\<open>inst\<close> at the
  moment of the raise (\<open>PNone\<close> when \<^verbatim>\<open>None\<close> was passed). Python's \<^verbatim>\<open>None\<close> is \<open>PNone\<close>.
\<close>

datatype outcome = Return pyval | Raise error pyval

text \<open>\<^verbatim>\<open>_to_binary_inst\<close>: both branches catch every exception.\<close>

definition to_binary_inst :: "env \<Rightarrow> pyval \<Rightarrow> pyval" where
  "to_binary_inst e msg =
     (if type_of msg \<in> set string_types then
        (case msg of
           PStr s \<Rightarrow> (case standard_b64decode e s of Some bs \<Rightarrow> PBytes bs | None \<Rightarrow> msg)
         | PBytes s \<Rightarrow> (case standard_b64decode e s of Some bs \<Rightarrow> PBytes bs | None \<Rightarrow> msg)
         | _ \<Rightarrow> msg)
      else
        (case str_bytearray e msg of Some s \<Rightarrow> PStr s | None \<Rightarrow> msg))"

text \<open>
  One round of the loop of \<^verbatim>\<open>_to_time_inst\<close>: the \<^verbatim>\<open>try\<close> block with its
  \<^verbatim>\<open>except TypeError: continue\<close>. The result is the object after the round, or the
  exception that leaves the loop.
\<close>

definition to_time_field :: "pyval \<Rightarrow> string \<Rightarrow> pyval \<Rightarrow> error + pyval" where
  "to_time_field msg field inst =
     (case py_contains field msg of
        Inl err \<Rightarrow> (if err = TypeError then Inr inst else Inl err)
      | Inr present \<Rightarrow>
         (if present then
            (case py_getitem msg field of
               Inl err \<Rightarrow> (if err = TypeError then Inr inst else Inl err)
             | Inr v \<Rightarrow>
                (case setattr inst field v of
                   Inl err \<Rightarrow> (if err = TypeError then Inr inst else Inl err)
                 | Inr inst' \<Rightarrow> Inr inst'))
          else Inr inst))"

text \<open>
  \<^verbatim>\<open>rospy.rostime.Time()\<close> and \<^verbatim>\<open>Duration()\<close> start with both attributes zero.
\<close>

definition to_time_inst :: "env \<Rightarrow> pyval \<Rightarrow> string \<Rightarrow> pyval \<Rightarrow> outcome" where
  "to_time_inst e msg rostype inst =
     (if rostype = ''time'' \<and> msg = PStr ''now'' then Return (rostime_now e)
      else
        (case (if inst = PNone then
                 (if rostype = ''time'' then Some (PTime (PInt 0) (PInt 0))
                  else if rostype = ''duration'' then Some (PDuration (PInt 0) (PInt 0))
                  else None)
               else Some inst) of
           None \<Rightarrow> Return PNone
         | Some inst0 \<Rightarrow>
            (case to_time_field msg ''secs'' inst0 of
               Inl err \<Rightarrow> Raise err inst
             | Inr inst1 \<Rightarrow>
                (case to_time_field msg ''nsecs'' inst1 of
                   Inl err \<Rightarrow> Raise err (if inst = PNone then PNone else inst1)
                 | Inr inst2 \<Rightarrow> Return inst2))))"

text \<open>\<^verbatim>\<open>type_map[name]\<close> raises \<^verbatim>\<open>KeyError\<close> for a name that is not a key.\<close>

definition type_map_item :: "string \<Rightarrow> error + string list" where
  "type_map_item name =
     (case map_of type_map name of None \<Rightarrow> Inl KeyError | Some ts \<Rightarrow> Inr ts)"

text \<open>
  \<^verbatim>\<open>msg.encode("ascii", "ignore")\<close>: text becomes the byte string of its ASCII characters;
  a byte string has no \<^verbatim>\<open>encode\<close>.
\<close>

fun encode_ascii_ignore :: "pyval \<Rightarrow> error + pyval" where
  "encode_ascii_ignore (PStr s) = Inr (PBytes (filter (\<lambda>c. (of_char c :: nat) < 128) s))"
| "encode_ascii_ignore _ = Inl AttributeError"

definition to_primitive_inst ::
  "pyval \<Rightarrow> string \<Rightarrow> string \<Rightarrow> string list \<Rightarrow> error + pyval" where
  "to_primitive_inst msg rostype roottype stack =
     (let msgtype = type_of msg;
          mismatch = Inl (FieldTypeMismatchException roottype stack rostype msgtype);
          second = (if msgtype \<in> set string_types then
                      (case type_map_item (name_of msgtype) of
                         Inl err \<Rightarrow> Inl err
                       | Inr ts \<Rightarrow>
                          (if rostype \<in> set ts then encode_ascii_ignore msg else mismatch))
                    else mismatch)
      in if msgtype \<in> set primitive_types then
           (case type_map_item (name_of msgtype) of
              Inl err \<Rightarrow> Inl err
            | Inr ts \<Rightarrow> (if rostype \<in> set ts then Inr msg else second))
         else second)"

text \<open>
  \<^verbatim>\<open>_to_inst\<close> and its helpers take the cache of message classes and return it with the
  outcome, since creating an instance goes through \<^verbatim>\<open>_get_msg_class\<close>. \<open>to_elems\<close> is the
  list comprehension of \<^verbatim>\<open>_to_list_inst\<close>; \<open>to_fields\<close> is the loop of \<^verbatim>\<open>_to_object_inst\<close>
  over the items of \<^verbatim>\<open>msg\<close>, with \<^verbatim>\<open>inst_fields\<close> as computed before the loop. A nested
  object that raised half-way stays attached to its parent as it is.
\<close>

function (sequential)
    to_inst ::
      "env \<Rightarrow> cache \<Rightarrow> pyval \<Rightarrow> string \<Rightarrow> string \<Rightarrow> pyval \<Rightarrow> string list \<Rightarrow> outcome \<times> cache"
and to_list_inst ::
      "env \<Rightarrow> cache \<Rightarrow> pyval \<Rightarrow> string \<Rightarrow> string \<Rightarrow> pyval \<Rightarrow> string list \<Rightarrow> outcome \<times> cache"
and to_elems ::
      "env \<Rightarrow> cache \<Rightarrow> pyval list \<Rightarrow> string \<Rightarrow> string \<Rightarrow> string list
        \<Rightarrow> (error + pyval list) \<times> cache"
and to_object_inst ::
      "env \<Rightarrow> cache \<Rightarrow> pyval \<Rightarrow> string \<Rightarrow> string \<Rightarrow> pyval \<Rightarrow> string list \<Rightarrow> outcome \<times> cache"
and to_fields ::
      "env \<Rightarrow> cache \<Rightarrow> (string \<times> pyval) list \<Rightarrow> (string \<times> string) list \<Rightarrow> string \<Rightarrow> pyval
        \<Rightarrow> string list \<Rightarrow> outcome \<times> cache"
where
  "to_inst e c msg rostype roottype inst stack =
     (if rostype \<in> set ros_binary_types then (Return (to_binary_inst e msg), c)
      else if rostype \<in> set ros_time_types then (to_time_inst e msg rostype inst, c)
      else if rostype \<in> set ros_primitive_types then
        (case to_primitive_inst msg rostype roottype stack of
           Inl err \<Rightarrow> (Raise err inst, c)
         | Inr v \<Rightarrow> (Return v, c))
      else if inst \<noteq> PNone \<and> type_of inst \<in> set list_types then
        to_list_inst e c msg rostype roottype inst stack
      else if inst = PNone then
        (case get_msg_class e rostype c of
           (Inl err, c') \<Rightarrow> (Raise err PNone, c')
         | (Inr cls, c') \<Rightarrow>
            (case to_object_inst e c' msg rostype roottype (cls_new cls) stack of
               (Raise err created, c'') \<Rightarrow> (Raise err PNone, c'')
             | (Return v, c'') \<Rightarrow> (Return v, c'')))
      else to_object_inst e c msg rostype roottype inst stack)"
| "to_list_inst e c msg rostype roottype inst stack =
     (case msg of
        PList xs \<Rightarrow>
          (if length xs = 0 then (Return (PList []), c)
           else (case to_elems e c xs (list_braces_sub rostype) roottype stack of
                   (Inl err, c') \<Rightarrow> (Raise err inst, c')
                 | (Inr vs, c') \<Rightarrow> (Return (PList vs), c')))
      | PTuple xs \<Rightarrow>
          (if length xs = 0 then (Return (PList []), c)
           else (case to_elems e c xs (list_braces_sub rostype) roottype stack of
                   (Inl err, c') \<Rightarrow> (Raise err inst, c')
                 | (Inr vs, c') \<Rightarrow> (Return (PList vs), c')))
      | _ \<Rightarrow> (Raise (FieldTypeMismatchException roottype stack rostype (type_of msg)) inst, c))"
| "to_elems e c [] rostype roottype stack = (Inr [], c)"
| "to_elems e c (x # xs) rostype roottype stack =
     (case to_inst e c x rostype roottype PNone stack of
        (Raise err created, c') \<Rightarrow> (Inl err, c')
      | (Return v, c') \<Rightarrow>
         (case to_elems e c' xs rostype roottype stack of
            (Inl err, c'') \<Rightarrow> (Inl err, c'')
          | (Inr vs, c'') \<Rightarrow> (Inr (v # vs), c'')))"
| "to_object_inst e c msg rostype roottype inst stack =
     (case msg of
        PDict kvs \<Rightarrow>
          (case (if rostype \<in> set ros_header_types
                 then setattr inst ''stamp'' (rostime_now e) else Inr inst) of
             Inl err \<Rightarrow> (Raise err inst, c)
           | Inr inst1 \<Rightarrow>
              (case inst_fields_of inst1 of
                 Inl err \<Rightarrow> (Raise err inst1, c)
               | Inr inst_fields \<Rightarrow> to_fields e c kvs inst_fields roottype inst1 stack))
      | _ \<Rightarrow> (Raise (FieldTypeMismatchException roottype stack rostype (type_of msg)) inst, c))"
| "to_fields e c [] inst_fields roottype inst stack = (Return inst, c)"
| "to_fields e c ((field_name, v) # rest) inst_fields roottype inst stack =
     (let field_stack = stack @ [field_name]
      in case map_of inst_fields field_name of
           None \<Rightarrow> (Raise (NonexistentFieldException roottype field_stack) inst, c)
         | Some field_rostype \<Rightarrow>
            (case getattr inst field_name of
               Inl err \<Rightarrow> (Raise err inst, c)
             | Inr field_inst \<Rightarrow>
                (case to_inst e c v field_rostype roottype field_inst field_stack of
                   (Raise err field_inst', c') \<Rightarrow>
                     (Raise err (case setattr inst field_name field_inst' of
                                   Inl err' \<Rightarrow> inst | Inr inst' \<Rightarrow> inst'), c')
                 | (Return field_value, c') \<Rightarrow>
                     (case setattr inst field_name field_value of
                        Inl err \<Rightarrow> (Raise err inst, c')
                      | Inr inst' \<Rightarrow> to_fields e c' rest inst_fields roottype inst' stack))))"
  by pat_completeness auto
termination
  by (relation "measure (\<lambda>x. case x of
         Inl (Inl (e, c, msg, rest)) \<Rightarrow> 3 * size msg + 2
       | Inl (Inr (e, c, msg, rest)) \<Rightarrow> 3 * size msg + 1
       | Inr (Inl (e, c, xs, rest)) \<Rightarrow> 3 * size (PList xs)
       | Inr (Inr (Inl (e, c, msg, rest))) \<Rightarrow> 3 * size msg + 1
       | Inr (Inr (Inr (e, c, kvs, rest))) \<Rightarrow> 3 * size (PDict kvs))")
     auto

text \<open>\<^verbatim>\<open>populate_instance\<close> reads \<^verbatim>\<open>inst._type\<close> before it calls \<^verbatim>\<open>_to_inst\<close>.\<close>

definition populate_instance :: "env \<Rightarrow> cache \<Rightarrow> pyval \<Rightarrow> pyval \<Rightarrow> outcome \<times> cache" where
  "populate_instance e c msg inst =
     (case rostype_of inst of
        None \<Rightarrow> (Raise AttributeError inst, c)
      | Some t \<Rightarrow> to_inst e c msg t t inst [])"

section \<open>Auxiliary notions for the properties\<close>

text \<open>The object a deserializing call leaves behind: the value returned, or the state of the
  target at the raise.\<close>

fun final_state :: "outcome \<Rightarrow> pyval" where
  "final_state (Return v) = v"
| "final_state (Raise err inst) = inst"

text \<open>
  Every write to a cache is made by \<^verbatim>\<open>_get_class\<close>. \<open>after_calls calls cache\<close> is the cache
  after the listed calls, each with the collaborators of its moment; the caches a run can
  reach are those of the form \<open>after_calls calls Map.empty\<close>. \<open>cache_keys_ok\<close> is the invariant
  of these caches: every key splits into package and name.
\<close>

definition cache_keys_ok :: "cache \<Rightarrow> bool" where
  "cache_keys_ok cache = (\<forall>k \<in> dom cache. \<exists>splits. splittype k = Inr splits)"

fun after_calls :: "(env \<times> string \<times> string) list \<Rightarrow> cache \<Rightarrow> cache" where
  "after_calls [] cache = cache"
| "after_calls ((e, typestring, subname) # calls) cache =
     after_calls calls (snd (get_class e typestring subname cache))"

fun is_InvalidTypeString :: "error + pyclass \<Rightarrow> bool" where
  "is_InvalidTypeString (Inl (InvalidTypeStringException s)) = True"
| "is_InvalidTypeString _ = False"

section \<open>Example objects and collaborators\<close>

text \<open>
  Instances as the generated classes \<^verbatim>\<open>geometry_msgs/Point\<close> and \<^verbatim>\<open>std_msgs/Header\<close>
  construct them, and collaborators for the examples: a clock that reads 100 seconds, a
  base64 library that knows the one pair \<^verbatim>\<open>hi\<close> and \<^verbatim>\<open>aGk=\<close>, and a package
  \<^verbatim>\<open>geometry_msgs\<close> whose \<^verbatim>\<open>msg\<close> module has the class \<^verbatim>\<open>Point\<close>.
\<close>

definition ex_point :: pyval where
  "ex_point = PMsg ''geometry_msgs/Point''
     [(''x'', ''float64'', PFloat 0), (''y'', ''float64'', PFloat 0), (''z'', ''float64'', PFloat 0)]"

definition ex_header :: pyval where
  "ex_header = PMsg ''std_msgs/Header''
     [(''seq'', ''uint32'', PInt 0),
      (''stamp'', ''time'', PTime (PInt 0) (PInt 0)),
      (''frame_id'', ''string'', PStr '''')]"

definition ex_exn :: exn where
  "ex_exn = \<lparr>exn_str = ''not found'', exn_message = None\<rparr>"

definition ex_env :: env where
  "ex_env =
     \<lparr>get_rostime = (100, 0),
      standard_b64encode = (\<lambda>bs. if bs = ''hi'' then ''aGk='' else []),
      standard_b64decode = (\<lambda>s. if s = ''aGk='' then Some ''hi'' else None),
      str_bytearray = (\<lambda>v. None),
      load_manifest = (\<lambda>package. if package = ''geometry_msgs'' then None else Some ex_exn),
      import_module = (\<lambda>modname subname.
        if modname = ''geometry_msgs'' \<and> subname = ''msg''
        then Inr (\<lambda>sub classname.
               if classname = ''Point'' then Inr (PyClass ''Point'' ex_point) else Inl ex_exn)
        else Inl ex_exn)\<rparr>"

section \<open>Records that survive the round trip\<close>

text \<open>
  What \<^verbatim>\<open>_get_msg_class\<close> answers for a type string when nothing is cached: the split and the
  load. A cache is coherent with the collaborators when each entry is what the split and the
  load give for its key; the empty cache is, and \<^verbatim>\<open>_get_class\<close> keeps a cache so.
\<close>

definition registry_class :: "env \<Rightarrow> string \<Rightarrow> error + pyclass" where
  "registry_class e typestring =
     (case splittype typestring of
        Inl err \<Rightarrow> Inl err
      | Inr splits \<Rightarrow> load_class e (splits ! 0) ''msg'' (splits ! 1))"

definition cache_coherent :: "env \<Rightarrow> cache \<Rightarrow> bool" where
  "cache_coherent e cache = (\<forall>k cls. cache k = Some cls \<longrightarrow> registry_class e k = Inr cls)"

text \<open>
  \<open>representable e rostype v seed\<close>: the value \<open>v\<close> of a field of schema type \<open>rostype\<close> can be
  serialized and read back into the seed \<open>seed\<close> (the corresponding attribute of the fresh
  instance, or \<open>PNone\<close> for an element of a list). The cases follow the dispatch of
  \<^verbatim>\<open>_from_inst\<close> and \<^verbatim>\<open>_to_inst\<close>:
  \<^item> a binary field holds a byte string that the base64 library encodes and decodes back;
  \<^item> a time or duration field holds an object of that class, and so does the seed;
  \<^item> a primitive field holds a \<^verbatim>\<open>bool\<close>, \<^verbatim>\<open>int\<close>, \<^verbatim>\<open>float\<close> or text that \<^verbatim>\<open>type_map\<close>
    admits for the schema type (a byte string is not admitted: \<^verbatim>\<open>type_map\<close> has no entry
    for \<^verbatim>\<open>bytes\<close>);
  \<^item> a sequence field holds a list of representable elements (a tuple comes back as a
    list), and the seed is a list or a tuple;
  \<^item> a record field holds a message object with pairwise distinct slot names whose fields are
    representable, and the seed (or, for \<open>PNone\<close>, the instance that the registered class
    constructs) is of the same type with the same slots; for a header type the seed is taken
    after the stamp is set to the clock value.
\<close>

function (sequential)
    representable :: "env \<Rightarrow> string \<Rightarrow> pyval \<Rightarrow> pyval \<Rightarrow> bool"
and representable_elems :: "env \<Rightarrow> string \<Rightarrow> pyval list \<Rightarrow> bool"
and representable_fields ::
      "env \<Rightarrow> (string \<times> string \<times> pyval) list \<Rightarrow> (string \<times> string \<times> pyval) list \<Rightarrow> bool"
where
  "representable e rostype v seed =
     (if rostype \<in> set ros_binary_types then
        (case v of
           PBytes bs \<Rightarrow> standard_b64decode e (standard_b64encode e bs) = Some bs
         | _ \<Rightarrow> False)
      else if rostype \<in> set ros_time_types then
        (case v of
           PTime s n \<Rightarrow>
             rostype = ''time''
             \<and> (case seed of PNone \<Rightarrow> True | PTime s' n' \<Rightarrow> True | _ \<Rightarrow> False)
         | PDuration s n \<Rightarrow>
             rostype = ''duration''
             \<and> (case seed of PNone \<Rightarrow> True | PDuration s' n' \<Rightarrow> True | _ \<Rightarrow> False)
         | _ \<Rightarrow> False)
      else if rostype \<in> set ros_primitive_types then
        ((type_of v \<in> set primitive_types \<or> type_of v = TStr)
         \<and> (case map_of type_map (name_of (type_of v)) of
               None \<Rightarrow> False
             | Some ts \<Rightarrow> rostype \<in> set ts))
      else
        (case v of
           PList xs \<Rightarrow>
             type_of seed \<in> set list_types
             \<and> representable_elems e (list_braces_sub rostype) xs
         | PMsg t slots \<Rightarrow>
             (case (if seed = PNone
                    then (case registry_class e rostype of
                            Inl err \<Rightarrow> None
                          | Inr cls \<Rightarrow> Some (cls_new cls))
                    else Some seed) of
                None \<Rightarrow> False
              | Some target \<Rightarrow>
                 (case (if rostype \<in> set ros_header_types
                        then setattr target ''stamp'' (rostime_now e) else Inr target) of
                    Inr (PMsg t' fslots) \<Rightarrow>
                      t' = t \<and> distinct (map fst slots) \<and> representable_fields e slots fslots
                  | _ \<Rightarrow> False))
         | _ \<Rightarrow> False))"
| "representable_elems e rostype [] = True"
| "representable_elems e rostype (x # xs) =
     (representable e rostype x PNone \<and> representable_elems e rostype xs)"
| "representable_fields e [] [] = True"
| "representable_fields e ((n, ty, v) # slots) ((n', ty', seed) # fslots) =
     (n' = n \<and> ty' = ty \<and> representable e ty v seed \<and> representable_fields e slots fslots)"
| "representable_fields e _ _ = False"
  by pat_completeness auto
termination
  by (relation "measure (\<lambda>x. case x of
         Inl (e, t, v, seed) \<Rightarrow> 2 * size v + 1
       | Inr (Inl (e, t, xs)) \<Rightarrow> 2 * size (PList xs)
       | Inr (Inr (e, slots, fslots)) \<Rightarrow> 2 * size (PMsg [] slots))")
     auto

text \<open>
  \<open>read_back rostype v\<close>: what the round trip makes of the value \<open>v\<close> of a field of schema
  type \<open>rostype\<close>. It is \<open>v\<close> field by field, with one change: text in a primitive field
  becomes the byte string of its ASCII characters, as \<^verbatim>\<open>_to_primitive_inst\<close> returns it.
  Binary, time and duration values, numbers and booleans are unchanged.
\<close>

function (sequential)
    read_back :: "string \<Rightarrow> pyval \<Rightarrow> pyval"
and read_back_elems :: "string \<Rightarrow> pyval list \<Rightarrow> pyval list"
and read_back_fields :: "(string \<times> string \<times> pyval) list \<Rightarrow> (string \<times> string \<times> pyval) list"
where
  "read_back rostype v =
     (if rostype \<in> set ros_binary_types then v
      else if rostype \<in> set ros_time_types then v
      else if rostype \<in> set ros_primitive_types then
        (case v of
           PStr s \<Rightarrow> PBytes (filter (\<lambda>c. (of_char c :: nat) < 128) s)
         | _ \<Rightarrow> v)
      else
        (case v of
           PList xs \<Rightarrow> PList (read_back_elems (list_braces_sub rostype) xs)
         | PMsg t slots \<Rightarrow> PMsg t (read_back_fields slots)
         | _ \<Rightarrow> v))"
| "read_back_elems rostype [] = []"
| "read_back_elems rostype (x # xs) = read_back rostype x # read_back_elems rostype xs"
| "read_back_fields [] = []"
| "read_back_fields ((n, ty, v) # slots) = (n, ty, read_back ty v) # read_back_fields slots"
  by pat_completeness auto
termination
  by (relation "measure (\<lambda>x. case x of
         Inl (t, v) \<Rightarrow> 2 * size v + 1
       | Inr (Inl (t, xs)) \<Rightarrow> 2 * size (PList xs)
       | Inr (Inr slots) \<Rightarrow> 2 * size (PMsg [] slots))")
     auto

text \<open>
  A record with a header, a nested record, sequences, a binary field and a duration, and a
  fresh instance of its class.
\<close>

definition ex_sample :: pyval where
  "ex_sample = PMsg ''ex_msgs/Sample''
     [(''header'', ''std_msgs/Header'',
         PMsg ''std_msgs/Header''
           [(''seq'', ''uint32'', PInt 3),
            (''stamp'', ''time'', PTime (PInt 5) (PInt 7)),
            (''frame_id'', ''string'', PStr ''base'')]),
      (''valid'', ''bool'', PBool True),
      (''position'', ''geometry_msgs/Point'',
         PMsg ''geometry_msgs/Point''
           [(''x'', ''float64'', PInt 1), (''y'', ''float64'', PFloat 2), (''z'', ''float64'', PFloat 3)]),
      (''counts'', ''int32[]'', PList [PInt 1, PInt 2]),
      (''waypoints'', ''geometry_msgs/Point[]'',
         PList [PMsg ''geometry_msgs/Point''
           [(''x'', ''float64'', PInt 4), (''y'', ''float64'', PFloat 5), (''z'', ''float64'', PFloat 6)]]),
      (''payload'', ''uint8[]'', PBytes ''hi''),
      (''elapsed'', ''duration'', PDuration (PInt 1) (PInt 2))]"

definition ex_sample_fresh :: pyval where
  "ex_sample_fresh = PMsg ''ex_msgs/Sample''
     [(''header'', ''std_msgs/Header'', ex_header),
      (''valid'', ''bool'', PBool False),
      (''position'', ''geometry_msgs/Point'', ex_point),
      (''counts'', ''int32[]'', PList []),
      (''waypoints'', ''geometry_msgs/Point[]'', PList []),
      (''payload'', ''uint8[]'', PBytes []),
      (''elapsed'', ''duration'', PDuration (PInt 0) (PInt 0))]"

section \<open>Properties\<close>

subsection \<open>Attributes and the field loop\<close>

lemma map_of_slots_update_other:
  "k' \<noteq> k \<Longrightarrow>
   map_of (map (\<lambda>(n, ty, v). (n, v)) (map (\<lambda>(n, ty, x). if n = k then (n, ty, v) else (n, ty, x)) slots)) k'
   = map_of (map (\<lambda>(n, ty, v). (n, v)) slots) k'"
  by (induction slots) auto

lemma map_of_slots_update_same:
  "k \<in> fst ` set slots \<Longrightarrow>
   map_of (map (\<lambda>(n, ty, v). (n, v)) (map (\<lambda>(n, ty, x). if n = k then (n, ty, v) else (n, ty, x)) slots)) k
   = Some v"
  by (induction slots) auto

lemma getattr_setattr_other:
  assumes "setattr inst k v = Inr inst'" and "k' \<noteq> k"
  shows "getattr inst' k' = getattr inst k'"
proof (cases inst)
  case (PMsg t slots)
  with assms(1) have "inst' = PMsg t (map (\<lambda>(n, ty, x). if n = k then (n, ty, v) else (n, ty, x)) slots)"
    by (simp split: if_splits)
  with PMsg map_of_slots_update_other[OF assms(2), of v slots] show ?thesis
    by (simp del: map_map)
qed (use assms in \<open>auto split: if_splits\<close>)

lemma getattr_setattr_same:
  assumes "setattr inst k v = Inr inst'"
  shows "getattr inst' k = Inr v"
proof (cases inst)
  case (PMsg t slots)
  with assms have i: "inst' = PMsg t (map (\<lambda>(n, ty, x). if n = k then (n, ty, v) else (n, ty, x)) slots)"
    and k: "k \<in> fst ` set slots"
    by (simp_all split: if_splits)
  from i map_of_slots_update_same[OF k, of v] show ?thesis
    by (simp del: map_map)
qed (use assms in \<open>auto split: if_splits\<close>)

lemma inst_fields_of_setattr:
  "setattr inst k v = Inr inst' \<Longrightarrow> inst_fields_of inst' = inst_fields_of inst"
  by (cases inst) (auto split: if_splits simp: comp_def case_prod_beta)

lemma to_fields_keeps_other_attrs:
  "k \<notin> fst ` set kvs \<Longrightarrow> to_fields e c kvs flds root inst stack = (out, c') \<Longrightarrow>
   getattr (final_state out) k = getattr inst k"
proof (induction kvs arbitrary: inst c)
  case Nil
  then show ?case by auto
next
  case (Cons kv kvs)
  obtain name v where kv: "kv = (name, v)" by (cases kv)
  from Cons.prems(1) kv have ne: "k \<noteq> name" and rest: "k \<notin> fst ` set kvs" by auto
  show ?case
  proof (cases "map_of flds name")
    case None
    with Cons.prems(2) kv show ?thesis by auto
  next
    case (Some ty)
    show ?thesis
    proof (cases "getattr inst name")
      case (Inl err)
      with Some Cons.prems(2) kv show ?thesis by auto
    next
      case (Inr seed)
      obtain o1 c1 where sub: "to_inst e c v ty root seed (stack @ [name]) = (o1, c1)"
        by (cases "to_inst e c v ty root seed (stack @ [name])")
      show ?thesis
      proof (cases o1)
        case (Raise err s)
        with Some Inr sub Cons.prems(2) kv ne show ?thesis
          by (auto simp del: to_inst.simps split: sum.splits dest: getattr_setattr_other)
      next
        case (Return fv)
        show ?thesis
        proof (cases "setattr inst name fv")
          case (Inl err)
          with Return Some Inr sub Cons.prems(2) kv show ?thesis
            by (auto simp del: to_inst.simps)
        next
          case (Inr inst')
          with Return Some \<open>getattr inst name = Inr seed\<close> sub Cons.prems(2) kv
          have "to_fields e c1 kvs flds root inst' stack = (out, c')"
            by (auto simp del: to_inst.simps)
          from Cons.IH[OF rest this] have "getattr (final_state out) k = getattr inst' k" .
          with getattr_setattr_other[OF Inr, of k] ne show ?thesis by auto
        qed
      qed
    qed
  qed
qed

lemma to_fields_append_Return:
  "to_fields e c pre flds root inst stack = (Return inst1, c1) \<Longrightarrow>
   to_fields e c (pre @ rest) flds root inst stack = to_fields e c1 rest flds root inst1 stack"
proof (induction pre arbitrary: inst c)
  case Nil
  then show ?case by auto
next
  case (Cons kv pre)
  obtain name v where kv: "kv = (name, v)" by (cases kv)
  from Cons.prems kv show ?case
    by (auto simp add: Let_def simp del: to_inst.simps
        split: option.splits sum.splits outcome.splits prod.splits intro: Cons.IH)
qed

lemma to_fields_append_Raise:
  "to_fields e c xs flds root inst stack = (Raise err s, c') \<Longrightarrow>
   to_fields e c (xs @ ys) flds root inst stack = (Raise err s, c')"
proof (induction xs arbitrary: inst c)
  case Nil
  then show ?case by auto
next
  case (Cons kv xs)
  obtain name v where kv: "kv = (name, v)" by (cases kv)
  from Cons.prems kv show ?case
    by (auto simp add: Let_def simp del: to_inst.simps
        split: option.splits sum.splits outcome.splits prod.splits intro: Cons.IH)
qed

text \<open>
  Every raise inside the loop has this shape: the items before the failing one were applied,
  and the failing item raises on the target they left.
\<close>

lemma to_fields_Raise_split:
  "to_fields e c kvs flds root inst stack = (Raise err s, c') \<Longrightarrow>
   \<exists>pre k v post inst1 c1. kvs = pre @ (k, v) # post
      \<and> to_fields e c pre flds root inst stack = (Return inst1, c1)
      \<and> to_fields e c1 [(k, v)] flds root inst1 stack = (Raise err s, c')"
proof (induction kvs arbitrary: inst c)
  case Nil
  then show ?case by simp
next
  case (Cons kv kvs)
  obtain name v where kv: "kv = (name, v)" by (cases kv)
  obtain r1 c1 where one: "to_fields e c [(name, v)] flds root inst stack = (r1, c1)"
    by (cases "to_fields e c [(name, v)] flds root inst stack")
  show ?case
  proof (cases r1)
    case (Raise err1 s1)
    with one to_fields_append_Raise[of e c "[(name, v)]" flds root inst stack err1 s1 c1 kvs]
      Cons.prems kv
    have "to_fields e c [(name, v)] flds root inst stack = (Raise err s, c')"
      by simp
    moreover have "to_fields e c [] flds root inst stack = (Return inst, c)"
      by simp
    ultimately show ?thesis using kv by blast
  next
    case (Return inst1)
    with one to_fields_append_Return[of e c "[(name, v)]" flds root inst stack inst1 c1 kvs]
      Cons.prems kv
    have "to_fields e c1 kvs flds root inst1 stack = (Raise err s, c')"
      by simp
    from Cons.IH[OF this] obtain pre k w post inst2 c2 where
      k: "kvs = pre @ (k, w) # post" and
      p: "to_fields e c1 pre flds root inst1 stack = (Return inst2, c2)" and
      f: "to_fields e c2 [(k, w)] flds root inst2 stack = (Raise err s, c')"
      by blast
    from Return one to_fields_append_Return[of e c "[(name, v)]" flds root inst stack inst1 c1 pre] p
    have "to_fields e c ((name, v) # pre) flds root inst stack = (Return inst2, c2)"
      by simp
    moreover from k kv have "kv # kvs = ((name, v) # pre) @ (k, w) # post" by simp
    ultimately show ?thesis using f by blast
  qed
qed

lemma to_fields_unknown_key_no_Return:
  "k \<in> fst ` set kvs \<Longrightarrow> map_of flds k = None \<Longrightarrow>
   fst (to_fields e c kvs flds root inst stack) \<noteq> Return r"
proof (induction kvs arbitrary: inst c)
  case Nil
  then show ?case by simp
next
  case (Cons kv kvs)
  obtain name v where kv: "kv = (name, v)" by (cases kv)
  show ?case
  proof (cases "name = k")
    case True
    with Cons.prems(2) kv show ?thesis by (simp add: Let_def del: to_inst.simps)
  next
    case False
    with Cons.prems(1) kv have "k \<in> fst ` set kvs" by auto
    from Cons.IH[OF this Cons.prems(2)]
    have ih: "\<And>inst c. fst (to_fields e c kvs flds root inst stack) \<noteq> Return r" .
    show ?thesis
      unfolding kv
      by (simp add: Let_def ih del: to_inst.simps
          split: option.splits sum.splits outcome.splits prod.splits)
  qed
qed

subsection \<open>The type registry\<close>

lemma splittype_Inr_iff:
  "(\<exists>splits. splittype t = Inr splits) = (length (filter (\<lambda>x. x \<noteq> []) (split_on CHR ''/'' t)) = 2)"
  by (auto simp: splittype_def Let_def)

lemma splittype_Inr_two:
  "splittype t = Inr splits \<Longrightarrow> \<exists>m n. splits = [m, n] \<and> m \<noteq> [] \<and> n \<noteq> []"
proof -
  assume a: "splittype t = Inr splits"
  then have s: "splits = filter (\<lambda>x. x \<noteq> []) (split_on CHR ''/'' t)" and l: "length splits = 2"
    by (auto simp: splittype_def Let_def split: if_splits)
  from l obtain m n where mn: "splits = [m, n]"
    by (cases splits; cases "tl splits") auto
  have "\<forall>x \<in> set splits. x \<noteq> []" unfolding s by simp
  with mn show ?thesis by auto
qed

lemma split_on_no_sep: "c \<notin> set xs \<Longrightarrow> split_on c xs = [xs]"
  by (induction xs) auto

lemma split_on_append_sep:
  "c \<notin> set xs \<Longrightarrow> split_on c (xs @ c # ys) = xs # split_on c ys"
  by (induction xs) auto

lemma split_on_segments_no_sep: "\<forall>w \<in> set (split_on c xs). c \<notin> set w"
  by (induction xs) (auto split: list.splits)

lemma splittype_norm:
  assumes "splittype t = Inr [m, n]"
  shows "splittype (m @ ''/'' @ n) = Inr [m, n]"
proof -
  from assms have s: "[m, n] = filter (\<lambda>x. x \<noteq> []) (split_on CHR ''/'' t)"
    by (auto simp: splittype_def Let_def split: if_splits)
  then have "set [m, n] \<subseteq> set (split_on CHR ''/'' t)"
    by (metis filter_is_subset)
  with split_on_segments_no_sep[of "CHR ''/''" t]
  have nm: "CHR ''/'' \<notin> set m" and nn: "CHR ''/'' \<notin> set n" by auto
  from splittype_Inr_two[OF assms] have ne: "m \<noteq> []" "n \<noteq> []" by auto
  have "split_on CHR ''/'' (m @ CHR ''/'' # n) = [m, n]"
    using split_on_append_sep[OF nm, of n] split_on_no_sep[OF nn] by simp
  with ne show ?thesis by (simp add: splittype_def)
qed

lemma get_class_keeps_keys_ok:
  assumes "cache_keys_ok cache"
  shows "cache_keys_ok (snd (get_class e t sub cache))"
proof (cases "splittype t")
  case (Inl err)
  then show ?thesis using assms
    by (simp add: get_class_def split: option.splits)
next
  case (Inr splits)
  from splittype_Inr_two[OF Inr] obtain m n where mn: "splits = [m, n]" by auto
  from Inr mn splittype_norm[of t m n] have norm: "splittype (m @ ''/'' @ n) = Inr [m, n]" by simp
  show ?thesis using assms Inr mn norm
    by (auto simp: get_class_def Let_def add_to_cache_def cache_keys_ok_def
        split: option.splits sum.splits)
qed

lemma after_calls_keys_ok:
  "cache_keys_ok cache \<Longrightarrow> cache_keys_ok (after_calls calls cache)"
  by (induction calls cache rule: after_calls.induct) (auto intro: get_class_keeps_keys_ok)

lemma load_class_not_InvalidTypeString:
  "load_class e m sub n \<noteq> Inl (InvalidTypeStringException s)"
  by (auto simp: load_class_def new_InvalidPackageException_def new_InvalidModuleException_def
      new_InvalidClassException_def split: option.splits sum.splits)

lemma get_class_InvalidTypeString_iff:
  assumes "cache_keys_ok cache"
  shows "is_InvalidTypeString (fst (get_class e t sub cache))
         = (length (filter (\<lambda>x. x \<noteq> []) (split_on CHR ''/'' t)) \<noteq> 2)"
proof (cases "splittype t")
  case (Inl err)
  then have bad: "length (filter (\<lambda>x. x \<noteq> []) (split_on CHR ''/'' t)) \<noteq> 2"
    and err: "err = InvalidTypeStringException t"
    by (auto simp: splittype_def Let_def split: if_splits)
  have "cache t = None"
  proof (rule ccontr)
    assume "cache t \<noteq> None"
    then have "t \<in> dom cache" by auto
    with assms obtain splits where "splittype t = Inr splits"
      unfolding cache_keys_ok_def by blast
    with Inl show False by simp
  qed
  with Inl err bad show ?thesis
    by (simp add: get_class_def get_from_cache_def)
next
  case (Inr splits)
  then have good: "length (filter (\<lambda>x. x \<noteq> []) (split_on CHR ''/'' t)) = 2"
    by (auto simp: splittype_def Let_def split: if_splits)
  have "\<not> is_InvalidTypeString (fst (get_class e t sub cache))"
    using Inr load_class_not_InvalidTypeString[of e "splits ! 0" sub "splits ! 1"]
    by (cases "load_class e (splits ! 0) sub (splits ! 1)")
       (auto simp: get_class_def Let_def split: option.splits sum.splits
             elim: is_InvalidTypeString.elims)
  with good show ?thesis by simp
qed

lemma get_class_bad_typestring:
  assumes "cache_keys_ok cache" and "length (filter (\<lambda>x. x \<noteq> []) (split_on CHR ''/'' t)) \<noteq> 2"
  shows "get_class e t sub cache = (Inl (InvalidTypeStringException t), cache)"
proof -
  from assms(2) have bad: "splittype t = Inl (InvalidTypeStringException t)"
    by (simp add: splittype_def)
  have "cache t = None"
  proof (rule ccontr)
    assume "cache t \<noteq> None"
    then have "t \<in> dom cache" by auto
    with assms(1) obtain splits where "splittype t = Inr splits"
      unfolding cache_keys_ok_def by blast
    with bad show False by simp
  qed
  with bad show ?thesis
    by (simp add: get_class_def get_from_cache_def)
qed

text \<open>
  Claim C3. For every type string and every cache a run can reach, \<^verbatim>\<open>_get_class\<close> raises
  \<^verbatim>\<open>InvalidTypeStringException\<close> if and only if splitting the string on the slash and
  dropping the empty segments does not leave exactly two segments; the exception then carries
  the string as supplied.
\<close>
theorem resolve_InvalidTypeString_iff:
  "is_InvalidTypeString (fst (get_class e typestring subname (after_calls calls Map.empty)))
     = (length (filter (\<lambda>x. x \<noteq> []) (split_on CHR ''/'' typestring)) \<noteq> 2)
   \<and> (fst (get_class e typestring subname (after_calls calls Map.empty))
        = Inl (InvalidTypeStringException typestring))
     = (length (filter (\<lambda>x. x \<noteq> []) (split_on CHR ''/'' typestring)) \<noteq> 2)"
proof -
  have ok: "cache_keys_ok (after_calls calls Map.empty)"
    by (rule after_calls_keys_ok) (simp add: cache_keys_ok_def)
  have iff: "is_InvalidTypeString (fst (get_class e typestring subname (after_calls calls Map.empty)))
     = (length (filter (\<lambda>x. x \<noteq> []) (split_on CHR ''/'' typestring)) \<noteq> 2)"
    by (rule get_class_InvalidTypeString_iff[OF ok])
  show ?thesis
  proof (cases "length (filter (\<lambda>x. x \<noteq> []) (split_on CHR ''/'' typestring)) = 2")
    case True
    with iff have "\<not> is_InvalidTypeString (fst (get_class e typestring subname (after_calls calls Map.empty)))"
      by simp
    then have "fst (get_class e typestring subname (after_calls calls Map.empty))
        \<noteq> Inl (InvalidTypeStringException typestring)"
      by auto
    with iff True show ?thesis by simp
  next
    case False
    with iff get_class_bad_typestring[OF ok False, of e subname] show ?thesis by simp
  qed
qed

lemma resolve_onlyonesegment:
  "get_class e ''onlyonesegment'' subname (after_calls calls Map.empty)
   = (Inl (InvalidTypeStringException ''onlyonesegment''), after_calls calls Map.empty)"
  by (rule get_class_bad_typestring, rule after_calls_keys_ok) (simp_all add: cache_keys_ok_def)

lemma splittype_excess_slashes:
  "splittype ''/pkg//Type/'' = Inr [''pkg'', ''Type'']"
  by (simp add: splittype_def)

text \<open>
  Claim C5. When neither the supplied string nor its normalized form is cached and the load
  returns a class, \<^verbatim>\<open>_get_class\<close> returns that class and leaves it in the cache under both
  keys; resolving either key again returns the same class and the same cache whatever the
  loader would now do, that is, without loading.
\<close>
theorem cold_resolve_caches_both_keys:
  assumes "cache typestring = None"
      and "splittype typestring = Inr [modname, classname]"
      and "cache (modname @ ''/'' @ classname) = None"
      and "load_class e modname subname classname = Inr cls"
  shows "get_class e typestring subname cache
           = (Inr cls, cache(typestring \<mapsto> cls, modname @ ''/'' @ classname \<mapsto> cls))
         \<and> (\<forall>e'. get_class e' typestring subname
                    (cache(typestring \<mapsto> cls, modname @ ''/'' @ classname \<mapsto> cls))
                  = (Inr cls, cache(typestring \<mapsto> cls, modname @ ''/'' @ classname \<mapsto> cls)))
         \<and> (\<forall>e'. get_class e' (modname @ ''/'' @ classname) subname
                    (cache(typestring \<mapsto> cls, modname @ ''/'' @ classname \<mapsto> cls))
                  = (Inr cls, cache(typestring \<mapsto> cls, modname @ ''/'' @ classname \<mapsto> cls)))"
  using assms
  by (simp add: get_class_def get_from_cache_def add_to_cache_def Let_def dom_def)

lemma ex_load: "load_class ex_env ''geometry_msgs'' ''msg'' ''Point'' = Inr (PyClass ''Point'' ex_point)"
  by (simp add: load_class_def ex_env_def)

lemma ex_split: "splittype ''/geometry_msgs//Point/'' = Inr [''geometry_msgs'', ''Point'']"
  by (simp add: splittype_def)

theorem cold_resolve_caches_both_keys_witness:
  "get_class ex_env ''/geometry_msgs//Point/'' ''msg'' Map.empty
     = (Inr (PyClass ''Point'' ex_point),
        [''/geometry_msgs//Point/'' \<mapsto> PyClass ''Point'' ex_point,
         ''geometry_msgs/Point'' \<mapsto> PyClass ''Point'' ex_point])
   \<and> (\<forall>e'. get_class e' ''/geometry_msgs//Point/'' ''msg''
          [''/geometry_msgs//Point/'' \<mapsto> PyClass ''Point'' ex_point,
           ''geometry_msgs/Point'' \<mapsto> PyClass ''Point'' ex_point]
        = (Inr (PyClass ''Point'' ex_point),
           [''/geometry_msgs//Point/'' \<mapsto> PyClass ''Point'' ex_point,
            ''geometry_msgs/Point'' \<mapsto> PyClass ''Point'' ex_point]))
   \<and> (\<forall>e'. get_class e' ''geometry_msgs/Point'' ''msg''
          [''/geometry_msgs//Point/'' \<mapsto> PyClass ''Point'' ex_point,
           ''geometry_msgs/Point'' \<mapsto> PyClass ''Point'' ex_point]
        = (Inr (PyClass ''Point'' ex_point),
           [''/geometry_msgs//Point/'' \<mapsto> PyClass ''Point'' ex_point,
            ''geometry_msgs/Point'' \<mapsto> PyClass ''Point'' ex_point]))"
  using cold_resolve_caches_both_keys[of Map.empty "''/geometry_msgs//Point/''"
      "''geometry_msgs''" "''Point''" ex_env "''msg''" "PyClass ''Point'' ex_point"]
    ex_load ex_split
  by simp

subsection \<open>Serialization of a value without type tag\<close>

text \<open>
  Claim C2. A dictionary has no \<^verbatim>\<open>_type\<close> attribute. \<^verbatim>\<open>extract_values\<close> ends with
  \<^verbatim>\<open>TypeError\<close> on it, raised by the constructor call that lacks its argument, and not
  with \<^verbatim>\<open>InvalidMessageException\<close>.
\<close>
theorem extract_values_untagged_TypeError:
  "extract_values e (PDict [(''data'', PInt 1)]) = Inl TypeError
   \<and> extract_values e (PDict [(''data'', PInt 1)]) \<noteq> Inl (InvalidMessageException ''dict'')"
  by (simp add: extract_values_def)

lemma extract_values_no_type_tag:
  "rostype_of inst = None \<Longrightarrow> extract_values e inst = Inl TypeError"
  by (simp add: extract_values_def)

subsection \<open>Primitives and binary arrays\<close>

text \<open>
  Claim C10. An integer deserialized against \<^verbatim>\<open>float32\<close> or \<^verbatim>\<open>float64\<close> is returned
  unchanged, by \<^verbatim>\<open>_to_primitive_inst\<close> and by \<^verbatim>\<open>_to_inst\<close>; the same holds for each of the
  twelve numeric schema types.
\<close>
theorem int_accepted_for_float_types:
  "to_primitive_inst (PInt n) ''float32'' roottype stack = Inr (PInt n)
   \<and> to_primitive_inst (PInt n) ''float64'' roottype stack = Inr (PInt n)
   \<and> to_inst e c (PInt n) ''float32'' roottype inst stack = (Return (PInt n), c)
   \<and> to_inst e c (PInt n) ''float64'' roottype inst stack = (Return (PInt n), c)
   \<and> list_all (\<lambda>rostype. to_primitive_inst (PInt n) rostype roottype stack = Inr (PInt n))
        [''int8'', ''byte'', ''uint8'', ''char'', ''int16'', ''uint16'', ''int32'', ''uint32'',
         ''int64'', ''uint64'', ''float32'', ''float64'']"
  by (simp add: to_primitive_inst_def primitive_types_def type_map_item_def type_map_def
      ros_binary_types_def ros_time_types_def ros_primitive_types_def)

text \<open>
  Claim C4. Text deserialized against \<^verbatim>\<open>uint8[]\<close> or \<^verbatim>\<open>char[]\<close> always returns: the
  decoded bytes where the base64 library decodes the text, the text itself where the library
  raises. The same holds for a byte string.
\<close>
theorem binary_text_never_raises:
  "to_inst e c (PStr s) ''uint8[]'' roottype inst stack
     = (Return (case standard_b64decode e s of Some bs \<Rightarrow> PBytes bs | None \<Rightarrow> PStr s), c)
   \<and> to_inst e c (PStr s) ''char[]'' roottype inst stack
     = (Return (case standard_b64decode e s of Some bs \<Rightarrow> PBytes bs | None \<Rightarrow> PStr s), c)
   \<and> to_inst e c (PBytes s) ''uint8[]'' roottype inst stack
     = (Return (case standard_b64decode e s of Some bs \<Rightarrow> PBytes bs | None \<Rightarrow> PBytes s), c)
   \<and> to_inst e c (PBytes s) ''char[]'' roottype inst stack
     = (Return (case standard_b64decode e s of Some bs \<Rightarrow> PBytes bs | None \<Rightarrow> PBytes s), c)"
  by (simp add: ros_binary_types_def to_binary_inst_def string_types_def)

text \<open>With the example library: \<^verbatim>\<open>aGk=\<close> is decoded, other text passes through.\<close>

lemma ex_binary_decoded:
  "to_inst ex_env c (PStr ''aGk='') ''uint8[]'' roottype inst stack = (Return (PBytes ''hi''), c)"
  by (simp add: ros_binary_types_def to_binary_inst_def string_types_def ex_env_def)

lemma ex_binary_passed_through:
  "to_inst ex_env c (PStr ''not base64'') ''uint8[]'' roottype inst stack
   = (Return (PStr ''not base64''), c)"
  by (simp add: ros_binary_types_def to_binary_inst_def string_types_def ex_env_def)

subsection \<open>Deserializing into records\<close>

lemmas constants_defs =
  ros_binary_types_def ros_time_types_def ros_primitive_types_def ros_header_types_def
  primitive_types_def string_types_def list_types_def type_map_def type_map_item_def

lemmas example_defs = ex_env_def ex_point_def ex_header_def ex_exn_def rostime_now_def

lemma to_object_inst_PDict:
  "to_object_inst e c (PDict kvs) rostype roottype inst stack =
     (case (if rostype \<in> set ros_header_types
            then setattr inst ''stamp'' (rostime_now e) else Inr inst) of
        Inl err \<Rightarrow> (Raise err inst, c)
      | Inr inst1 \<Rightarrow>
         (case inst_fields_of inst1 of
            Inl err \<Rightarrow> (Raise err inst1, c)
          | Inr inst_fields \<Rightarrow> to_fields e c kvs inst_fields roottype inst1 stack))"
  by simp

lemma to_object_inst_Return_fields:
  assumes "to_object_inst e c (PDict kvs) rostype roottype inst stack = (Return r, c')"
  obtains inst0 flds where
    "(if rostype \<in> set ros_header_types
      then setattr inst ''stamp'' (rostime_now e) else Inr inst) = Inr inst0"
    "inst_fields_of inst0 = Inr flds"
    "inst_fields_of inst = Inr flds"
    "to_fields e c kvs flds roottype inst0 stack = (Return r, c')"
    "\<forall>kvs' c2. to_object_inst e c2 (PDict kvs') rostype roottype inst stack
        = to_fields e c2 kvs' flds roottype inst0 stack"
proof -
  let ?pre = "if rostype \<in> set ros_header_types
      then setattr inst ''stamp'' (rostime_now e) else Inr inst"
  from assms obtain inst0 where p: "?pre = Inr inst0"
    by (cases ?pre) (simp_all del: to_fields.simps)
  from assms p obtain flds where f: "inst_fields_of inst0 = Inr flds"
    by (cases "inst_fields_of inst0") (simp_all del: to_fields.simps)
  have f': "inst_fields_of inst = Inr flds"
  proof (cases "rostype \<in> set ros_header_types")
    case True
    with p have "setattr inst ''stamp'' (rostime_now e) = Inr inst0" by simp
    from inst_fields_of_setattr[OF this] f show ?thesis by simp
  next
    case False
    with p f show ?thesis by simp
  qed
  from assms p f have t: "to_fields e c kvs flds roottype inst0 stack = (Return r, c')"
    by (simp del: to_fields.simps)
  have g: "\<forall>kvs' c2. to_object_inst e c2 (PDict kvs') rostype roottype inst stack
        = to_fields e c2 kvs' flds roottype inst0 stack"
    using p f by (simp del: to_fields.simps)
  from that[OF p f f' t g] show thesis .
qed

text \<open>
  Claim C8. Deserialization is not atomic. When the items \<open>pre\<close> of a mapping deserialize
  into the target, leaving it as \<open>inst1\<close>, and the next item \<open>(k, v)\<close> raises, then the call
  on the whole mapping raises the same exception, and the target it leaves behind has every
  attribute other than \<open>k\<close> as \<open>inst1\<close> has it: the assignments made before the failing
  field stay.
\<close>
theorem no_rollback_after_raise:
  assumes "to_object_inst e c (PDict pre) rostype roottype inst stack = (Return inst1, c1)"
      and "to_object_inst e c (PDict (pre @ [(k, v)])) rostype roottype inst stack
             = (Raise err inst2, c2)"
  shows "to_object_inst e c (PDict (pre @ (k, v) # post)) rostype roottype inst stack
           = (Raise err inst2, c2)
         \<and> (\<forall>k'. k' \<noteq> k \<longrightarrow> getattr inst2 k' = getattr inst1 k')"
proof -
  from assms(1) obtain inst0 flds where
    "(if rostype \<in> set ros_header_types
      then setattr inst ''stamp'' (rostime_now e) else Inr inst) = Inr inst0" and
    "inst_fields_of inst0 = Inr flds" and
    "inst_fields_of inst = Inr flds" and
    t: "to_fields e c pre flds roottype inst0 stack = (Return inst1, c1)" and
    g: "\<forall>kvs' c2. to_object_inst e c2 (PDict kvs') rostype roottype inst stack
        = to_fields e c2 kvs' flds roottype inst0 stack"
    by (rule to_object_inst_Return_fields)
  from assms(2) g have "to_fields e c (pre @ [(k, v)]) flds roottype inst0 stack = (Raise err inst2, c2)"
    by simp
  with to_fields_append_Return[OF t, of "[(k, v)]"]
  have one: "to_fields e c1 [(k, v)] flds roottype inst1 stack = (Raise err inst2, c2)"
    by simp
  from to_fields_append_Raise[OF one, of post]
  have "to_fields e c1 ((k, v) # post) flds roottype inst1 stack = (Raise err inst2, c2)"
    by simp
  with to_fields_append_Return[OF t, of "(k, v) # post"] g
  have a: "to_object_inst e c (PDict (pre @ (k, v) # post)) rostype roottype inst stack
           = (Raise err inst2, c2)"
    by simp
  have b: "\<forall>k'. k' \<noteq> k \<longrightarrow> getattr inst2 k' = getattr inst1 k'"
  proof (intro allI impI)
    fix k' assume "k' \<noteq> k"
    then have "k' \<notin> fst ` set [(k, v)]" by simp
    from to_fields_keeps_other_attrs[OF this one] show "getattr inst2 k' = getattr inst1 k'"
      by simp
  qed
  from a b show ?thesis by simp
qed

text \<open>
  The same, read from the raise: when the call on the empty mapping returns (so that the
  raise does not come from the checks before the loop) and the call on \<open>kvs\<close> raises, then
  \<open>kvs\<close> splits at a failing item, the items before it were assigned, and the target left
  behind has these assignments.
\<close>

lemma raise_in_loop_keeps_assignments:
  assumes "to_object_inst e c (PDict []) rostype roottype inst stack = (Return inst0, c0)"
      and "to_object_inst e c (PDict kvs) rostype roottype inst stack = (Raise err inst2, c2)"
  shows "\<exists>pre k v post inst1 c1. kvs = pre @ (k, v) # post
           \<and> to_object_inst e c (PDict pre) rostype roottype inst stack = (Return inst1, c1)
           \<and> (\<forall>k'. k' \<noteq> k \<longrightarrow> getattr inst2 k' = getattr inst1 k')"
proof -
  from assms(1) obtain inst0' flds where
    "(if rostype \<in> set ros_header_types
      then setattr inst ''stamp'' (rostime_now e) else Inr inst) = Inr inst0'" and
    "inst_fields_of inst0' = Inr flds" and
    "inst_fields_of inst = Inr flds" and
    "to_fields e c [] flds roottype inst0' stack = (Return inst0, c0)" and
    g: "\<forall>kvs' c2. to_object_inst e c2 (PDict kvs') rostype roottype inst stack
        = to_fields e c2 kvs' flds roottype inst0' stack"
    by (rule to_object_inst_Return_fields)
  from assms(2) g have "to_fields e c kvs flds roottype inst0' stack = (Raise err inst2, c2)"
    by simp
  from to_fields_Raise_split[OF this] obtain pre k v post inst1 c1 where
    k: "kvs = pre @ (k, v) # post" and
    p: "to_fields e c pre flds roottype inst0' stack = (Return inst1, c1)" and
    f: "to_fields e c1 [(k, v)] flds roottype inst1 stack = (Raise err inst2, c2)"
    by blast
  have "\<forall>k'. k' \<noteq> k \<longrightarrow> getattr inst2 k' = getattr inst1 k'"
  proof (intro allI impI)
    fix k' assume "k' \<noteq> k"
    then have "k' \<notin> fst ` set [(k, v)]" by simp
    from to_fields_keeps_other_attrs[OF this f] show "getattr inst2 k' = getattr inst1 k'"
      by simp
  qed
  with k p g show ?thesis by auto
qed

lemma ex_point_x:
  "to_object_inst ex_env Map.empty (PDict [(''x'', PInt 1)]) ''geometry_msgs/Point''
     ''geometry_msgs/Point'' ex_point []
   = (Return (PMsg ''geometry_msgs/Point''
        [(''x'', ''float64'', PInt 1), (''y'', ''float64'', PFloat 0), (''z'', ''float64'', PFloat 0)]),
      Map.empty)"
  by (simp add: constants_defs example_defs to_primitive_inst_def Let_def)

lemma ex_point_x_y:
  "to_object_inst ex_env Map.empty (PDict ([(''x'', PInt 1)] @ [(''y'', PStr ''bad'')]))
     ''geometry_msgs/Point'' ''geometry_msgs/Point'' ex_point []
   = (Raise (FieldTypeMismatchException ''geometry_msgs/Point'' [''y''] ''float64'' TStr)
        (PMsg ''geometry_msgs/Point''
          [(''x'', ''float64'', PInt 1), (''y'', ''float64'', PFloat 0), (''z'', ''float64'', PFloat 0)]),
      Map.empty)"
  by (simp add: constants_defs example_defs to_primitive_inst_def Let_def)

theorem no_rollback_after_raise_witness:
  "to_object_inst ex_env Map.empty (PDict [(''x'', PInt 1)]) ''geometry_msgs/Point''
     ''geometry_msgs/Point'' ex_point []
   = (Return (PMsg ''geometry_msgs/Point''
        [(''x'', ''float64'', PInt 1), (''y'', ''float64'', PFloat 0), (''z'', ''float64'', PFloat 0)]),
      Map.empty)
   \<and> to_object_inst ex_env Map.empty (PDict ([(''x'', PInt 1)] @ [(''y'', PStr ''bad'')]))
     ''geometry_msgs/Point'' ''geometry_msgs/Point'' ex_point []
   = (Raise (FieldTypeMismatchException ''geometry_msgs/Point'' [''y''] ''float64'' TStr)
        (PMsg ''geometry_msgs/Point''
          [(''x'', ''float64'', PInt 1), (''y'', ''float64'', PFloat 0), (''z'', ''float64'', PFloat 0)]),
      Map.empty)
   \<and> to_object_inst ex_env Map.empty
       (PDict ([(''x'', PInt 1)] @ (''y'', PStr ''bad'') # [(''z'', PInt 3)]))
       ''geometry_msgs/Point'' ''geometry_msgs/Point'' ex_point []
   = (Raise (FieldTypeMismatchException ''geometry_msgs/Point'' [''y''] ''float64'' TStr)
        (PMsg ''geometry_msgs/Point''
          [(''x'', ''float64'', PInt 1), (''y'', ''float64'', PFloat 0), (''z'', ''float64'', PFloat 0)]),
      Map.empty)
   \<and> getattr (PMsg ''geometry_msgs/Point''
          [(''x'', ''float64'', PInt 1), (''y'', ''float64'', PFloat 0), (''z'', ''float64'', PFloat 0)]) ''x''
       = Inr (PInt 1)
   \<and> getattr ex_point ''x'' = Inr (PFloat 0)"
  using no_rollback_after_raise[OF ex_point_x ex_point_x_y, of "[(''z'', PInt 3)]"]
    ex_point_x ex_point_x_y
  by (simp add: ex_point_def)


lemma to_fields_append_Return_split:
  "to_fields e c (xs @ ys) flds root inst stack = (Return r, c') \<Longrightarrow>
   \<exists>inst1 c1. to_fields e c xs flds root inst stack = (Return inst1, c1)
      \<and> to_fields e c1 ys flds root inst1 stack = (Return r, c')"
proof (induction xs arbitrary: inst c)
  case Nil
  then show ?case by simp
next
  case (Cons kv xs)
  obtain name v where kv: "kv = (name, v)" by (cases kv)
  from Cons.prems kv show ?case
    by (auto simp add: Let_def simp del: to_inst.simps
        split: option.splits sum.splits outcome.splits prod.splits intro: Cons.IH)
qed

lemma to_fields_keeps_inst_fields:
  "to_fields e c kvs flds root inst stack = (out, c') \<Longrightarrow>
   inst_fields_of (final_state out) = inst_fields_of inst"
proof (induction kvs arbitrary: inst c)
  case Nil
  then show ?case by auto
next
  case (Cons kv kvs)
  obtain name v where kv: "kv = (name, v)" by (cases kv)
  from Cons.prems kv show ?case
    by (auto simp add: Let_def inst_fields_of_setattr simp del: to_inst.simps
        split: option.splits sum.splits outcome.splits prod.splits dest!: Cons.IH)
qed

lemma header_not_leaf:
  "rostype \<in> set ros_header_types \<Longrightarrow>
   rostype \<notin> set ros_binary_types \<and> rostype \<notin> set ros_time_types
   \<and> rostype \<notin> set ros_primitive_types"
  by (auto simp: constants_defs)

lemma to_inst_record_Return:
  assumes "rostype \<notin> set ros_binary_types" "rostype \<notin> set ros_time_types"
    "rostype \<notin> set ros_primitive_types"
    and "to_inst e c (PDict kvs) rostype roottype inst stack = (Return r, c')"
  shows "\<exists>inst' c1. to_object_inst e c1 (PDict kvs) rostype roottype inst' stack = (Return r, c')
           \<and> (inst \<noteq> PNone \<longrightarrow> inst' = inst \<and> c1 = c)"
proof (cases "inst \<noteq> PNone \<and> type_of inst \<in> set list_types")
  case True
  with assms show ?thesis
    by (simp del: to_object_inst.simps)
next
  case False
  show ?thesis
  proof (cases "inst = PNone")
    case True
    with assms show ?thesis
      by (auto simp del: to_object_inst.simps split: prod.splits sum.splits outcome.splits)
  next
    case False
    with \<open>\<not> (inst \<noteq> PNone \<and> type_of inst \<in> set list_types)\<close> assms show ?thesis
      by (auto simp del: to_object_inst.simps)
  qed
qed

lemma header_object_stamp_default:
  assumes "rostype \<in> set ros_header_types" and "''stamp'' \<notin> fst ` set kvs"
    and "to_object_inst e c (PDict kvs) rostype roottype inst stack = (Return r, c')"
  shows "getattr r ''stamp'' = Inr (rostime_now e)"
proof -
  from assms(3) obtain inst0 flds where
    p: "(if rostype \<in> set ros_header_types
      then setattr inst ''stamp'' (rostime_now e) else Inr inst) = Inr inst0" and
    "inst_fields_of inst0 = Inr flds" and
    "inst_fields_of inst = Inr flds" and
    t: "to_fields e c kvs flds roottype inst0 stack = (Return r, c')" and
    "\<forall>kvs' c2. to_object_inst e c2 (PDict kvs') rostype roottype inst stack
        = to_fields e c2 kvs' flds roottype inst0 stack"
    by (rule to_object_inst_Return_fields)
  from p assms(1) have "setattr inst ''stamp'' (rostime_now e) = Inr inst0" by simp
  from getattr_setattr_same[OF this] have "getattr inst0 ''stamp'' = Inr (rostime_now e)" .
  with to_fields_keeps_other_attrs[OF assms(2) t] show ?thesis by simp
qed

lemma header_object_stamp_given:
  assumes "rostype \<in> set ros_header_types"
    and "''stamp'' \<notin> fst ` set pre" and "''stamp'' \<notin> fst ` set post"
    and "inst_fields_of inst = Inr flds" and "map_of flds ''stamp'' = Some ''time''"
    and "to_object_inst e c (PDict (pre @ (''stamp'', d) # post)) rostype roottype inst stack
           = (Return r, c')"
  shows "\<exists>t. to_time_inst e d ''time'' (rostime_now e) = Return t \<and> getattr r ''stamp'' = Inr t"
proof -
  from assms(6) obtain inst0 flds' where
    p: "(if rostype \<in> set ros_header_types
      then setattr inst ''stamp'' (rostime_now e) else Inr inst) = Inr inst0" and
    "inst_fields_of inst0 = Inr flds'" and
    f: "inst_fields_of inst = Inr flds'" and
    t: "to_fields e c (pre @ (''stamp'', d) # post) flds' roottype inst0 stack = (Return r, c')" and
    "\<forall>kvs' c2. to_object_inst e c2 (PDict kvs') rostype roottype inst stack
        = to_fields e c2 kvs' flds' roottype inst0 stack"
    by (rule to_object_inst_Return_fields)
  from f assms(4) have ff: "flds' = flds" by simp
  from p assms(1) have "setattr inst ''stamp'' (rostime_now e) = Inr inst0" by simp
  from getattr_setattr_same[OF this] have s0: "getattr inst0 ''stamp'' = Inr (rostime_now e)" .
  from to_fields_append_Return_split[OF t] obtain inst1 c1 where
    t1: "to_fields e c pre flds' roottype inst0 stack = (Return inst1, c1)" and
    t2: "to_fields e c1 ((''stamp'', d) # post) flds' roottype inst1 stack = (Return r, c')"
    by blast
  from to_fields_keeps_other_attrs[OF assms(2) t1] s0
  have s1: "getattr inst1 ''stamp'' = Inr (rostime_now e)" by simp
  have leaf: "to_inst e c1 d ''time'' roottype (rostime_now e) (stack @ [''stamp''])
     = (to_time_inst e d ''time'' (rostime_now e), c1)"
    by (simp add: constants_defs)
  from t2 s1 ff assms(5) leaf obtain tv inst2 where
    tv: "to_time_inst e d ''time'' (rostime_now e) = Return tv" and
    i2: "setattr inst1 ''stamp'' tv = Inr inst2" and
    t3: "to_fields e c1 post flds' roottype inst2 stack = (Return r, c')"
    by (auto simp add: Let_def simp del: to_inst.simps
        split: outcome.splits sum.splits)
  from to_fields_keeps_other_attrs[OF assms(3) t3] getattr_setattr_same[OF i2]
  have "getattr r ''stamp'' = Inr tv" by simp
  with tv show ?thesis by blast
qed

text \<open>
  Claim C1, as amended. For a header type the stamp is set to the clock value before the
  items of the input are applied. When the input has no \<^verbatim>\<open>stamp\<close> entry, the returned record's
  stamp is the clock value. When it has one, the entry is deserialized as a time with the
  clock value as seed, and the result is the returned record's stamp.
\<close>
theorem header_stamp_clock_then_input:
  assumes "rostype \<in> set ros_header_types"
    and "to_inst e c (PDict kvs) rostype roottype inst stack = (Return r, c')"
  shows "(''stamp'' \<notin> fst ` set kvs \<longrightarrow> getattr r ''stamp'' = Inr (rostime_now e))
       \<and> (\<forall>pre d post flds.
            kvs = pre @ (''stamp'', d) # post \<and> ''stamp'' \<notin> fst ` set pre
            \<and> ''stamp'' \<notin> fst ` set post \<and> inst_fields_of r = Inr flds
            \<and> map_of flds ''stamp'' = Some ''time''
            \<longrightarrow> (\<exists>t. to_time_inst e d ''time'' (rostime_now e) = Return t
                    \<and> getattr r ''stamp'' = Inr t))"
proof -
  from header_not_leaf[OF assms(1)] to_inst_record_Return[OF _ _ _ assms(2)]
  obtain inst' c1 where
    o: "to_object_inst e c1 (PDict kvs) rostype roottype inst' stack = (Return r, c')"
    by blast
  from o obtain inst0 flds0 where
    p: "(if rostype \<in> set ros_header_types
      then setattr inst' ''stamp'' (rostime_now e) else Inr inst') = Inr inst0" and
    f0: "inst_fields_of inst0 = Inr flds0" and
    f: "inst_fields_of inst' = Inr flds0" and
    t: "to_fields e c1 kvs flds0 roottype inst0 stack = (Return r, c')" and
    "\<forall>kvs' c2. to_object_inst e c2 (PDict kvs') rostype roottype inst' stack
        = to_fields e c2 kvs' flds0 roottype inst0 stack"
    by (rule to_object_inst_Return_fields)
  have fr: "inst_fields_of r = Inr flds0"
    using to_fields_keeps_inst_fields[OF t] f0 by simp
  have a: "''stamp'' \<notin> fst ` set kvs \<longrightarrow> getattr r ''stamp'' = Inr (rostime_now e)"
    using header_object_stamp_default[OF assms(1) _ o] by blast
  have b: "\<forall>pre d post flds.
            kvs = pre @ (''stamp'', d) # post \<and> ''stamp'' \<notin> fst ` set pre
            \<and> ''stamp'' \<notin> fst ` set post \<and> inst_fields_of r = Inr flds
            \<and> map_of flds ''stamp'' = Some ''time''
            \<longrightarrow> (\<exists>t. to_time_inst e d ''time'' (rostime_now e) = Return t
                    \<and> getattr r ''stamp'' = Inr t)"
  proof (intro allI impI, elim conjE)
    fix pre d post flds
    assume k: "kvs = pre @ (''stamp'', d) # post" and n1: "''stamp'' \<notin> fst ` set pre"
      and n2: "''stamp'' \<notin> fst ` set post" and fl: "inst_fields_of r = Inr flds"
      and m: "map_of flds ''stamp'' = Some ''time''"
    from fl fr have "flds = flds0" by simp
    with m f have f': "inst_fields_of inst' = Inr flds" "map_of flds ''stamp'' = Some ''time''"
      by simp_all
    from header_object_stamp_given[OF assms(1) n1 n2 f' o[unfolded k]]
    show "\<exists>t. to_time_inst e d ''time'' (rostime_now e) = Return t \<and> getattr r ''stamp'' = Inr t" .
  qed
  from a b show ?thesis by simp
qed


lemma ex_header_frame_id:
  "to_inst ex_env Map.empty (PDict [(''frame_id'', PStr ''base'')]) ''std_msgs/Header''
     ''std_msgs/Header'' ex_header []
   = (Return (PMsg ''std_msgs/Header''
        [(''seq'', ''uint32'', PInt 0),
         (''stamp'', ''time'', PTime (PInt 100) (PInt 0)),
         (''frame_id'', ''string'', PBytes ''base'')]),
      Map.empty)"
  by (simp add: constants_defs example_defs to_primitive_inst_def Let_def)

lemma ex_header_stamp_given:
  "to_inst ex_env Map.empty
     (PDict [(''stamp'', PDict [(''secs'', PInt 5), (''nsecs'', PInt 7)])])
     ''std_msgs/Header'' ''std_msgs/Header'' ex_header []
   = (Return (PMsg ''std_msgs/Header''
        [(''seq'', ''uint32'', PInt 0),
         (''stamp'', ''time'', PTime (PInt 5) (PInt 7)),
         (''frame_id'', ''string'', PStr [])]),
      Map.empty)"
  by (simp add: constants_defs example_defs to_time_inst_def to_time_field_def Let_def)

theorem header_stamp_clock_then_input_witness:
  "''std_msgs/Header'' \<in> set ros_header_types
   \<and> to_inst ex_env Map.empty (PDict [(''frame_id'', PStr ''base'')]) ''std_msgs/Header''
        ''std_msgs/Header'' ex_header []
     = (Return (PMsg ''std_msgs/Header''
          [(''seq'', ''uint32'', PInt 0),
           (''stamp'', ''time'', PTime (PInt 100) (PInt 0)),
           (''frame_id'', ''string'', PBytes ''base'')]),
        Map.empty)
   \<and> ''stamp'' \<notin> fst ` set [(''frame_id'', PStr ''base'')]
   \<and> getattr (PMsg ''std_msgs/Header''
          [(''seq'', ''uint32'', PInt 0),
           (''stamp'', ''time'', PTime (PInt 100) (PInt 0)),
           (''frame_id'', ''string'', PBytes ''base'')]) ''stamp''
     = Inr (rostime_now ex_env)
   \<and> to_inst ex_env Map.empty
        (PDict ([] @ (''stamp'', PDict [(''secs'', PInt 5), (''nsecs'', PInt 7)]) # []))
        ''std_msgs/Header'' ''std_msgs/Header'' ex_header []
     = (Return (PMsg ''std_msgs/Header''
          [(''seq'', ''uint32'', PInt 0),
           (''stamp'', ''time'', PTime (PInt 5) (PInt 7)),
           (''frame_id'', ''string'', PStr [])]),
        Map.empty)
   \<and> inst_fields_of (PMsg ''std_msgs/Header''
          [(''seq'', ''uint32'', PInt 0),
           (''stamp'', ''time'', PTime (PInt 5) (PInt 7)),
           (''frame_id'', ''string'', PStr [])])
     = Inr [(''seq'', ''uint32''), (''stamp'', ''time''), (''frame_id'', ''string'')]
   \<and> map_of [(''seq'', ''uint32''), (''stamp'', ''time''), (''frame_id'', ''string'')] ''stamp''
     = Some ''time''
   \<and> to_time_inst ex_env (PDict [(''secs'', PInt 5), (''nsecs'', PInt 7)]) ''time''
        (rostime_now ex_env)
     = Return (PTime (PInt 5) (PInt 7))
   \<and> getattr (PMsg ''std_msgs/Header''
          [(''seq'', ''uint32'', PInt 0),
           (''stamp'', ''time'', PTime (PInt 5) (PInt 7)),
           (''frame_id'', ''string'', PStr [])]) ''stamp''
     = Inr (PTime (PInt 5) (PInt 7))"
proof -
  have h: "''std_msgs/Header'' \<in> set ros_header_types"
    by (simp add: ros_header_types_def)
  have n: "''stamp'' \<notin> fst ` set [(''frame_id'', PStr ''base'')]"
    by simp
  have t: "to_time_inst ex_env (PDict [(''secs'', PInt 5), (''nsecs'', PInt 7)]) ''time''
        (rostime_now ex_env)
     = Return (PTime (PInt 5) (PInt 7))"
    by (simp add: to_time_inst_def to_time_field_def rostime_now_def ex_env_def)
  from header_stamp_clock_then_input[OF h ex_header_frame_id]
    header_stamp_clock_then_input[OF h ex_header_stamp_given]
    n h t ex_header_frame_id ex_header_stamp_given
  show ?thesis by simp
qed

text \<open>
  Claim C1 as stated fails: with a clock reading 100 seconds, an input whose \<^verbatim>\<open>stamp\<close> entry
  gives 5 seconds and 7 nanoseconds yields a header stamped 5 seconds and 7 nanoseconds.
\<close>

theorem header_stamp_input_not_ignored:
  "''std_msgs/Header'' \<in> set ros_header_types
   \<and> rostime_now ex_env = PTime (PInt 100) (PInt 0)
   \<and> populate_instance ex_env Map.empty
        (PDict [(''stamp'', PDict [(''secs'', PInt 5), (''nsecs'', PInt 7)])]) ex_header
     = (Return (PMsg ''std_msgs/Header''
          [(''seq'', ''uint32'', PInt 0),
           (''stamp'', ''time'', PTime (PInt 5) (PInt 7)),
           (''frame_id'', ''string'', PStr [])]),
        Map.empty)
   \<and> getattr (PMsg ''std_msgs/Header''
          [(''seq'', ''uint32'', PInt 0),
           (''stamp'', ''time'', PTime (PInt 5) (PInt 7)),
           (''frame_id'', ''string'', PStr [])]) ''stamp''
     \<noteq> Inr (rostime_now ex_env)"
  using ex_header_stamp_given
  by (simp add: populate_instance_def ex_header_def ros_header_types_def rostime_now_def
      ex_env_def)

text \<open>
  Claim C7, as amended. Let \<open>flds\<close> be the fields of the target. A key \<open>k\<close> that is not a
  field raises \<^verbatim>\<open>NonexistentFieldException\<close> with the root type and the path extended by
  \<open>k\<close> when the loop reaches it, that is, when the items before it were deserialized and
  assigned; and a mapping that holds such a key never returns. A key that is a field is
  deserialized with the attribute's current value as seed and the result is assigned.
\<close>
theorem unknown_field_raises_when_reached:
  assumes "inst_fields_of inst = Inr flds"
  shows "(map_of flds k = None
          \<and> to_object_inst e c (PDict pre) rostype roottype inst stack = (Return inst1, c1)
          \<longrightarrow> to_object_inst e c (PDict (pre @ (k, v) # post)) rostype roottype inst stack
              = (Raise (NonexistentFieldException roottype (stack @ [k])) inst1, c1))
       \<and> (map_of flds k = None \<and> k \<in> fst ` set kvs
          \<longrightarrow> (\<forall>r. fst (to_object_inst e c (PDict kvs) rostype roottype inst stack) \<noteq> Return r))
       \<and> (map_of flds field_name = Some field_rostype
          \<and> to_object_inst e c (PDict pre) rostype roottype inst stack = (Return inst1, c1)
          \<and> getattr inst1 field_name = Inr field_inst
          \<and> to_inst e c1 w field_rostype roottype field_inst (stack @ [field_name])
              = (Return field_value, c2)
          \<and> setattr inst1 field_name field_value = Inr inst2
          \<longrightarrow> to_object_inst e c (PDict (pre @ [(field_name, w)])) rostype roottype inst stack
              = (Return inst2, c2))"
proof (intro conjI impI, goal_cases)
  case 1
  then have u: "map_of flds k = None"
    and r: "to_object_inst e c (PDict pre) rostype roottype inst stack = (Return inst1, c1)"
    by simp_all
  from r obtain inst0 flds' where
    "(if rostype \<in> set ros_header_types
      then setattr inst ''stamp'' (rostime_now e) else Inr inst) = Inr inst0" and
    "inst_fields_of inst0 = Inr flds'" and
    f: "inst_fields_of inst = Inr flds'" and
    t: "to_fields e c pre flds' roottype inst0 stack = (Return inst1, c1)" and
    g: "\<forall>kvs' c2. to_object_inst e c2 (PDict kvs') rostype roottype inst stack
        = to_fields e c2 kvs' flds' roottype inst0 stack"
    by (rule to_object_inst_Return_fields)
  from f assms have "flds' = flds" by simp
  with u to_fields_append_Return[OF t, of "(k, v) # post"] g show ?case
    by (simp add: Let_def del: to_inst.simps)
next
  case 2
  then have u: "map_of flds k = None" and m: "k \<in> fst ` set kvs" by simp_all
  show ?case
  proof (intro allI notI)
    fix r assume "fst (to_object_inst e c (PDict kvs) rostype roottype inst stack) = Return r"
    then obtain c' where
      r: "to_object_inst e c (PDict kvs) rostype roottype inst stack = (Return r, c')"
      by (cases "to_object_inst e c (PDict kvs) rostype roottype inst stack") simp
    from r obtain inst0 flds' where
      "(if rostype \<in> set ros_header_types
        then setattr inst ''stamp'' (rostime_now e) else Inr inst) = Inr inst0" and
      "inst_fields_of inst0 = Inr flds'" and
      f: "inst_fields_of inst = Inr flds'" and
      t: "to_fields e c kvs flds' roottype inst0 stack = (Return r, c')" and
      "\<forall>kvs' c2. to_object_inst e c2 (PDict kvs') rostype roottype inst stack
          = to_fields e c2 kvs' flds' roottype inst0 stack"
      by (rule to_object_inst_Return_fields)
    from f assms have "flds' = flds" by simp
    with to_fields_unknown_key_no_Return[OF m u, of e c roottype inst0 stack r] t
    show False by simp
  qed
next
  case 3
  then have u: "map_of flds field_name = Some field_rostype"
    and r: "to_object_inst e c (PDict pre) rostype roottype inst stack = (Return inst1, c1)"
    and a: "getattr inst1 field_name = Inr field_inst"
    and b: "to_inst e c1 w field_rostype roottype field_inst (stack @ [field_name])
              = (Return field_value, c2)"
    and s: "setattr inst1 field_name field_value = Inr inst2"
    by simp_all
  from r obtain inst0 flds' where
    "(if rostype \<in> set ros_header_types
      then setattr inst ''stamp'' (rostime_now e) else Inr inst) = Inr inst0" and
    "inst_fields_of inst0 = Inr flds'" and
    f: "inst_fields_of inst = Inr flds'" and
    t: "to_fields e c pre flds' roottype inst0 stack = (Return inst1, c1)" and
    g: "\<forall>kvs' c2. to_object_inst e c2 (PDict kvs') rostype roottype inst stack
        = to_fields e c2 kvs' flds' roottype inst0 stack"
    by (rule to_object_inst_Return_fields)
  from f assms have "flds' = flds" by simp
  with u a b s to_fields_append_Return[OF t, of "[(field_name, w)]"] g show ?case
    by (simp add: Let_def del: to_inst.simps)
qed

text \<open>
  Claim C7 as stated fails: \<^verbatim>\<open>foo\<close> is not a field of \<^verbatim>\<open>geometry_msgs/Point\<close>, and the call
  on a mapping with \<^verbatim>\<open>x\<close> before \<^verbatim>\<open>foo\<close> ends with the type mismatch of \<^verbatim>\<open>x\<close>.
\<close>

theorem unknown_field_masked_by_earlier_error:
  "inst_fields_of ex_point = Inr [(''x'', ''float64''), (''y'', ''float64''), (''z'', ''float64'')]
   \<and> map_of [(''x'', ''float64''), (''y'', ''float64''), (''z'', ''float64'')] ''foo'' = None
   \<and> populate_instance ex_env Map.empty (PDict [(''x'', PStr ''oops''), (''foo'', PInt 1)]) ex_point
     = (Raise (FieldTypeMismatchException ''geometry_msgs/Point'' [''x''] ''float64'' TStr)
          ex_point, Map.empty)"
  by (simp add: populate_instance_def constants_defs example_defs to_primitive_inst_def Let_def)

text \<open>
  Claim C9, as amended. \<^verbatim>\<open>populate_instance\<close> reads the type from its target: with
  \<^verbatim>\<open>None\<close> it raises \<^verbatim>\<open>AttributeError\<close>, with a message object it calls \<^verbatim>\<open>_to_inst\<close>. It is
  \<^verbatim>\<open>_to_inst\<close> that accepts \<^verbatim>\<open>None\<close> as target: for a type that is not binary, time or
  primitive it resolves the class through \<^verbatim>\<open>_get_msg_class\<close>, calls it, and populates the
  new instance.
\<close>
theorem null_target_only_inside:
  "populate_instance e c msg PNone = (Raise AttributeError PNone, c)
   \<and> populate_instance e c msg (PMsg t slots) = to_inst e c msg t t (PMsg t slots) []
   \<and> (rostype \<notin> set ros_binary_types \<and> rostype \<notin> set ros_time_types
       \<and> rostype \<notin> set ros_primitive_types
       \<longrightarrow> to_inst e c msg rostype roottype PNone stack
           = (case get_msg_class e rostype c of
                (Inl err, c') \<Rightarrow> (Raise err PNone, c')
              | (Inr cls, c') \<Rightarrow>
                 (case to_object_inst e c' msg rostype roottype (cls_new cls) stack of
                    (Raise err created, c'') \<Rightarrow> (Raise err PNone, c'')
                  | (Return v, c'') \<Rightarrow> (Return v, c''))))"
  by (simp add: populate_instance_def del: to_object_inst.simps)

text \<open>Claim C9 as stated fails: \<^verbatim>\<open>populate_instance\<close> with a null target raises.\<close>

theorem populate_instance_null_target:
  "populate_instance ex_env Map.empty (PDict [(''x'', PInt 1)]) PNone
   = (Raise AttributeError PNone, Map.empty)"
  by (simp add: populate_instance_def)


lemma ex_point_fields:
  "inst_fields_of ex_point = Inr [(''x'', ''float64''), (''y'', ''float64''), (''z'', ''float64'')]"
  by (simp add: ex_point_def)

lemma ex_point_y:
  "to_inst ex_env Map.empty (PInt 2) ''float64'' ''geometry_msgs/Point'' (PFloat 0) ([] @ [''y''])
   = (Return (PInt 2), Map.empty)"
  by (simp add: constants_defs to_primitive_inst_def Let_def)

theorem unknown_field_raises_when_reached_witness:
  "inst_fields_of ex_point = Inr [(''x'', ''float64''), (''y'', ''float64''), (''z'', ''float64'')]
   \<and> map_of [(''x'', ''float64''), (''y'', ''float64''), (''z'', ''float64'')] ''foo'' = None
   \<and> to_object_inst ex_env Map.empty (PDict [(''x'', PInt 1)]) ''geometry_msgs/Point''
        ''geometry_msgs/Point'' ex_point []
      = (Return (PMsg ''geometry_msgs/Point''
          [(''x'', ''float64'', PInt 1), (''y'', ''float64'', PFloat 0), (''z'', ''float64'', PFloat 0)]),
         Map.empty)
   \<and> to_object_inst ex_env Map.empty
        (PDict ([(''x'', PInt 1)] @ (''foo'', PInt 1) # [(''z'', PInt 3)]))
        ''geometry_msgs/Point'' ''geometry_msgs/Point'' ex_point []
      = (Raise (NonexistentFieldException ''geometry_msgs/Point'' ([] @ [''foo'']))
          (PMsg ''geometry_msgs/Point''
            [(''x'', ''float64'', PInt 1), (''y'', ''float64'', PFloat 0), (''z'', ''float64'', PFloat 0)]),
         Map.empty)
   \<and> ''foo'' \<in> fst ` set [(''x'', PInt 1), (''foo'', PInt 1)]
   \<and> (\<forall>r. fst (to_object_inst ex_env Map.empty (PDict [(''x'', PInt 1), (''foo'', PInt 1)])
               ''geometry_msgs/Point'' ''geometry_msgs/Point'' ex_point []) \<noteq> Return r)
   \<and> map_of [(''x'', ''float64''), (''y'', ''float64''), (''z'', ''float64'')] ''y'' = Some ''float64''
   \<and> getattr (PMsg ''geometry_msgs/Point''
          [(''x'', ''float64'', PInt 1), (''y'', ''float64'', PFloat 0), (''z'', ''float64'', PFloat 0)]) ''y''
      = Inr (PFloat 0)
   \<and> to_inst ex_env Map.empty (PInt 2) ''float64'' ''geometry_msgs/Point'' (PFloat 0) ([] @ [''y''])
      = (Return (PInt 2), Map.empty)
   \<and> setattr (PMsg ''geometry_msgs/Point''
          [(''x'', ''float64'', PInt 1), (''y'', ''float64'', PFloat 0), (''z'', ''float64'', PFloat 0)])
        ''y'' (PInt 2)
      = Inr (PMsg ''geometry_msgs/Point''
          [(''x'', ''float64'', PInt 1), (''y'', ''float64'', PInt 2), (''z'', ''float64'', PFloat 0)])
   \<and> to_object_inst ex_env Map.empty (PDict ([(''x'', PInt 1)] @ [(''y'', PInt 2)]))
        ''geometry_msgs/Point'' ''geometry_msgs/Point'' ex_point []
      = (Return (PMsg ''geometry_msgs/Point''
          [(''x'', ''float64'', PInt 1), (''y'', ''float64'', PInt 2), (''z'', ''float64'', PFloat 0)]),
         Map.empty)"
  using unknown_field_raises_when_reached[OF ex_point_fields,
      of "''foo''" ex_env Map.empty "[(''x'', PInt 1)]" "''geometry_msgs/Point''"
         "''geometry_msgs/Point''" "[]"
         "PMsg ''geometry_msgs/Point''
           [(''x'', ''float64'', PInt 1), (''y'', ''float64'', PFloat 0), (''z'', ''float64'', PFloat 0)]"
         Map.empty "PInt 1" "[(''z'', PInt 3)]" "[(''x'', PInt 1), (''foo'', PInt 1)]"
         "''y''" "''float64''" "PFloat 0" "PInt 2" "PInt 2" Map.empty
         "PMsg ''geometry_msgs/Point''
           [(''x'', ''float64'', PInt 1), (''y'', ''float64'', PInt 2), (''z'', ''float64'', PFloat 0)]"]
    ex_point_fields ex_point_x ex_point_y
  by (simp del: to_object_inst.simps to_inst.simps)

theorem null_target_only_inside_witness:
  "''geometry_msgs/Point'' \<notin> set ros_binary_types
   \<and> ''geometry_msgs/Point'' \<notin> set ros_time_types
   \<and> ''geometry_msgs/Point'' \<notin> set ros_primitive_types
   \<and> get_msg_class ex_env ''geometry_msgs/Point'' Map.empty
      = (Inr (PyClass ''Point'' ex_point),
         [''geometry_msgs/Point'' \<mapsto> PyClass ''Point'' ex_point])
   \<and> to_inst ex_env Map.empty (PDict [(''x'', PInt 1)]) ''geometry_msgs/Point''
        ''geometry_msgs/Point'' PNone []
      = (Return (PMsg ''geometry_msgs/Point''
          [(''x'', ''float64'', PInt 1), (''y'', ''float64'', PFloat 0), (''z'', ''float64'', PFloat 0)]),
         [''geometry_msgs/Point'' \<mapsto> PyClass ''Point'' ex_point])"
proof -
  have n: "''geometry_msgs/Point'' \<notin> set ros_binary_types
     \<and> ''geometry_msgs/Point'' \<notin> set ros_time_types
     \<and> ''geometry_msgs/Point'' \<notin> set ros_primitive_types"
    by (simp add: constants_defs)
  have g: "get_msg_class ex_env ''geometry_msgs/Point'' Map.empty
      = (Inr (PyClass ''Point'' ex_point),
         [''geometry_msgs/Point'' \<mapsto> PyClass ''Point'' ex_point])"
    by (simp add: get_msg_class_def get_class_def get_from_cache_def splittype_def
        load_class_def ex_env_def add_to_cache_def Let_def)
  have o: "to_object_inst ex_env [''geometry_msgs/Point'' \<mapsto> PyClass ''Point'' ex_point]
        (PDict [(''x'', PInt 1)]) ''geometry_msgs/Point'' ''geometry_msgs/Point'' ex_point []
      = (Return (PMsg ''geometry_msgs/Point''
          [(''x'', ''float64'', PInt 1), (''y'', ''float64'', PFloat 0), (''z'', ''float64'', PFloat 0)]),
         [''geometry_msgs/Point'' \<mapsto> PyClass ''Point'' ex_point])"
    by (simp add: constants_defs example_defs to_primitive_inst_def Let_def)
  from null_target_only_inside[of ex_env Map.empty "PDict [(''x'', PInt 1)]" _ _
      "''geometry_msgs/Point''" "''geometry_msgs/Point''" "[]"] n g o
  show ?thesis by (simp del: to_object_inst.simps to_inst.simps)
qed

subsection \<open>The round trip\<close>

text \<open>From here on the recursive equations are unfolded by name only.\<close>

declare from_inst.simps [simp del] from_list_inst.simps [simp del]
  from_object_inst.simps [simp del]
  to_inst.simps [simp del] to_list_inst.simps [simp del] to_object_inst.simps [simp del]
  representable.simps [simp del] read_back.simps [simp del]

lemma registry_class_norm:
  assumes "splittype t = Inr [m, n]"
  shows "registry_class e (m @ ''/'' @ n) = registry_class e t"
  using assms splittype_norm[OF assms] by (simp add: registry_class_def)

lemma get_msg_class_coherent:
  assumes "cache_coherent e c"
  shows "\<exists>c'. get_msg_class e t c = (registry_class e t, c') \<and> cache_coherent e c'"
proof (cases "c t")
  case (Some cls)
  with assms have "registry_class e t = Inr cls" by (simp add: cache_coherent_def)
  with Some assms show ?thesis
    by (simp add: get_msg_class_def get_class_def get_from_cache_def dom_def)
next
  case None
  show ?thesis
  proof (cases "splittype t")
    case (Inl err)
    with None assms show ?thesis
      by (simp add: get_msg_class_def get_class_def get_from_cache_def registry_class_def)
  next
    case (Inr splits)
    from splittype_Inr_two[OF Inr] obtain m n where mn: "splits = [m, n]" by auto
    from Inr mn have sp: "splittype t = Inr [m, n]" by simp
    have rn: "registry_class e (m @ ''/'' @ n) = registry_class e t"
      by (rule registry_class_norm[OF sp])
    have rt: "registry_class e t = load_class e m ''msg'' n"
      using sp by (simp add: registry_class_def)
    show ?thesis
    proof (cases "c (m @ ''/'' @ n)")
      case (Some cls)
      with assms have "registry_class e (m @ ''/'' @ n) = Inr cls"
        by (simp add: cache_coherent_def)
      with rn Some None sp assms show ?thesis
        by (simp add: get_msg_class_def get_class_def get_from_cache_def dom_def Let_def)
    next
      case nn: None
      show ?thesis
      proof (cases "load_class e m ''msg'' n")
        case (Inl err)
        with nn None sp rt assms show ?thesis
          by (simp add: get_msg_class_def get_class_def get_from_cache_def dom_def Let_def)
      next
        case (Inr cls)
        have "cache_coherent e (c(t \<mapsto> cls, m @ ''/'' @ n \<mapsto> cls))"
          using assms rn rt Inr by (auto simp: cache_coherent_def)
        with Inr nn None sp rt show ?thesis
          by (simp add: get_msg_class_def get_class_def get_from_cache_def dom_def Let_def
              add_to_cache_def)
      qed
    qed
  qed
qed

lemma primitive_not_binary_time:
  "rostype \<in> set ros_primitive_types \<Longrightarrow>
   rostype \<notin> set ros_binary_types \<and> rostype \<notin> set ros_time_types"
  by (auto simp: constants_defs)

lemma from_elems_primitive:
  "rostype \<in> set ros_primitive_types \<Longrightarrow> from_elems e xs rostype = Inr xs"
  by (induction xs) (auto simp: primitive_not_binary_time from_inst.simps)

lemma read_back_binary: "rostype \<in> set ros_binary_types \<Longrightarrow> read_back rostype v = v"
  by (simp add: read_back.simps)

lemma read_back_time: "rostype \<in> set ros_time_types \<Longrightarrow> read_back rostype v = v"
  by (simp add: read_back.simps)

lemma read_back_text:
  "rostype \<in> set ros_primitive_types \<Longrightarrow>
   read_back rostype (PStr s) = PBytes (filter (\<lambda>c. (of_char c :: nat) < 128) s)"
  using primitive_not_binary_time[of rostype] by (simp add: read_back.simps)

lemma read_back_number:
  "rostype \<in> set ros_primitive_types \<Longrightarrow> type_of v \<in> set primitive_types \<Longrightarrow>
   read_back rostype v = v"
  by (cases v) (auto simp add: read_back.simps primitive_types_def)

lemma read_back_list:
  "rostype \<notin> set ros_binary_types \<Longrightarrow> rostype \<notin> set ros_time_types \<Longrightarrow>
   rostype \<notin> set ros_primitive_types \<Longrightarrow>
   read_back rostype (PList xs) = PList (read_back_elems (list_braces_sub rostype) xs)"
  by (simp add: read_back.simps)

lemma read_back_record:
  "rostype \<notin> set ros_binary_types \<Longrightarrow> rostype \<notin> set ros_time_types \<Longrightarrow>
   rostype \<notin> set ros_primitive_types \<Longrightarrow>
   read_back rostype (PMsg t slots) = PMsg t (read_back_fields slots)"
  by (simp add: read_back.simps)

lemma read_back_fields_names: "map fst (read_back_fields slots) = map fst slots"
  by (induction slots) auto

lemma read_back_fields_getattr:
  "(n, ty, v) \<in> set slots \<Longrightarrow> distinct (map fst slots) \<Longrightarrow>
   getattr (PMsg t (read_back_fields slots)) n = Inr (read_back ty v)"
proof (induction slots)
  case Nil
  then show ?case by simp
next
  case (Cons slot slots)
  obtain n' ty' v' where slot: "slot = (n', ty', v')" by (cases slot)
  show ?case
  proof (cases "n' = n")
    case True
    with Cons.prems slot have "ty' = ty" "v' = v" by (auto simp: image_iff)
    with True slot show ?thesis by simp
  next
    case False
    with Cons.prems slot have "(n, ty, v) \<in> set slots" "distinct (map fst slots)" by auto
    from Cons.IH[OF this] False slot show ?thesis by simp
  qed
qed

lemma roundtrip_elems:
  assumes "\<And>x rostype seed c roottype stack.
      x \<in> set xs \<Longrightarrow> cache_coherent e c \<Longrightarrow> representable e rostype x seed \<Longrightarrow>
      \<exists>ser c'. from_inst e x rostype = Inr ser
         \<and> to_inst e c ser rostype roottype seed stack = (Return (read_back rostype x), c')
         \<and> cache_coherent e c'"
    and "cache_coherent e c" and "representable_elems e et xs"
  shows "\<exists>sers c'. from_elems e xs et = Inr sers \<and> length sers = length xs
         \<and> to_elems e c sers et roottype stack = (Inr (read_back_elems et xs), c')
         \<and> cache_coherent e c'"
  using assms
proof (induction xs arbitrary: c)
  case Nil
  then show ?case by simp
next
  case (Cons x xs)
  from Cons.prems(3) have rx: "representable e et x PNone" and rxs: "representable_elems e et xs"
    by simp_all
  have mem: "x \<in> set (x # xs)" by simp
  from Cons.prems(1)[OF mem Cons.prems(2) rx, of roottype stack] obtain ser c1 where
    f: "from_inst e x et = Inr ser" and
    t: "to_inst e c ser et roottype PNone stack = (Return (read_back et x), c1)" and
    c1: "cache_coherent e c1"
    by blast
  have "\<exists>sers c'. from_elems e xs et = Inr sers \<and> length sers = length xs
         \<and> to_elems e c1 sers et roottype stack = (Inr (read_back_elems et xs), c')
         \<and> cache_coherent e c'"
    by (rule Cons.IH[OF _ c1 rxs]) (rule Cons.prems(1), auto)
  then obtain sers c' where
    fs: "from_elems e xs et = Inr sers" and l: "length sers = length xs" and
    ts: "to_elems e c1 sers et roottype stack = (Inr (read_back_elems et xs), c')" and
    c': "cache_coherent e c'"
    by blast
  from f fs have "from_elems e (x # xs) et = Inr (ser # sers)"
    by simp
  moreover from t ts
  have "to_elems e c (ser # sers) et roottype stack = (Inr (read_back_elems et (x # xs)), c')"
    by simp
  ultimately show ?case using l c' by auto
qed

lemma roundtrip_list:
  assumes "\<And>x rostype seed c roottype stack.
      x \<in> set xs \<Longrightarrow> cache_coherent e c \<Longrightarrow> representable e rostype x seed \<Longrightarrow>
      \<exists>ser c'. from_inst e x rostype = Inr ser
         \<and> to_inst e c ser rostype roottype seed stack = (Return (read_back rostype x), c')
         \<and> cache_coherent e c'"
    and "cache_coherent e c" and "representable e rostype (PList xs) seed"
  shows "\<exists>ser c'. from_inst e (PList xs) rostype = Inr ser
         \<and> to_inst e c ser rostype roottype seed stack = (Return (read_back rostype (PList xs)), c')
         \<and> cache_coherent e c'"
proof -
  from assms(3) have nb: "rostype \<notin> set ros_binary_types" and nt: "rostype \<notin> set ros_time_types"
    and np: "rostype \<notin> set ros_primitive_types"
    by (auto simp: representable.simps primitive_types_def split: if_splits)
  from assms(3) nb nt np have sl: "type_of seed \<in> set list_types"
    and re: "representable_elems e (list_braces_sub rostype) xs"
    by (simp_all add: representable.simps)
  from sl have sn: "seed \<noteq> PNone" by (auto simp: list_types_def)
  have rb: "read_back rostype (PList xs) = PList (read_back_elems (list_braces_sub rostype) xs)"
    by (rule read_back_list[OF nb nt np])
  show ?thesis
  proof (cases "xs = []")
    case True
    with nb nt np sl sn assms(2) rb show ?thesis
      by (simp add: list_types_def from_inst.simps from_list_inst.simps to_inst.simps
          to_list_inst.simps)
  next
    case False
    from roundtrip_elems[OF assms(1) assms(2) re, of roottype stack] obtain sers c' where
      fs: "from_elems e xs (list_braces_sub rostype) = Inr sers" and
      l: "length sers = length xs" and
      ts: "to_elems e c sers (list_braces_sub rostype) roottype stack
            = (Inr (read_back_elems (list_braces_sub rostype) xs), c')" and
      c': "cache_coherent e c'"
      by blast
    from False l have ne: "sers \<noteq> []" by auto
    have f: "from_inst e (PList xs) rostype = Inr (PList sers)"
    proof (cases "list_braces_sub rostype \<in> set ros_primitive_types")
      case True
      from from_elems_primitive[OF True, of e xs] fs have "sers = xs" by simp
      with True False nb nt np show ?thesis
        by (simp add: list_types_def from_inst.simps from_list_inst.simps)
    next
      case F: False
      with False nb nt np fs show ?thesis
        by (simp add: list_types_def from_inst.simps from_list_inst.simps)
    qed
    have "to_inst e c (PList sers) rostype roottype seed stack
          = (Return (read_back rostype (PList xs)), c')"
      using nb nt np sl sn ne ts rb by (simp add: to_inst.simps to_list_inst.simps)
    with f c' show ?thesis by blast
  qed
qed

lemma update_new_key: "k \<notin> fst ` set al \<Longrightarrow> AList.update k v al = al @ [(k, v)]"
  by (induction al) auto

lemma representable_fields_same_slots:
  "representable_fields e slots fslots \<Longrightarrow>
   map (\<lambda>(n, ty, v). (n, ty)) fslots = map (\<lambda>(n, ty, v). (n, ty)) slots"
proof (induction slots arbitrary: fslots)
  case Nil
  then show ?case by (cases fslots) auto
next
  case (Cons slot slots)
  obtain n ty v where slot: "slot = (n, ty, v)" by (cases slot)
  show ?case
  proof (cases fslots)
    case Nil
    with Cons.prems slot show ?thesis by simp
  next
    case (Cons fslot fslots')
    obtain n' ty' fv where fslot: "fslot = (n', ty', fv)" by (cases fslot)
    from Cons.prems slot fslot Cons have "n' = n" "ty' = ty" "representable_fields e slots fslots'"
      by (simp_all del: representable.simps)
    with Cons.IH[of fslots'] slot fslot Cons show ?thesis by simp
  qed
qed

lemma map_of_slot_types:
  "n \<notin> fst ` set settled \<Longrightarrow>
   map_of (map (\<lambda>(n, ty, v). (n, ty)) (settled @ (n, ty, v) # rest)) n = Some ty"
  by (induction settled) auto

lemma map_of_slot_values:
  "n \<notin> fst ` set settled \<Longrightarrow>
   map_of (map (\<lambda>(n, ty, v). (n, v)) (settled @ (n, ty, v) # rest)) n = Some v"
  by (induction settled) auto

lemma slot_update_absent:
  "n \<notin> fst ` set slots \<Longrightarrow>
   map (\<lambda>(n', ty, x). if n' = n then (n', ty, v) else (n', ty, x)) slots = slots"
  by (induction slots) auto

lemma setattr_slot:
  assumes "n \<notin> fst ` set settled" and "n \<notin> fst ` set rest"
  shows "setattr (PMsg t (settled @ (n, ty, fv) # rest)) n v = Inr (PMsg t (settled @ (n, ty, v) # rest))"
  using assms by (simp add: slot_update_absent)

lemma getattr_slot:
  assumes "n \<notin> fst ` set settled"
  shows "getattr (PMsg t (settled @ (n, ty, fv) # rest)) n = Inr fv"
  using map_of_slot_values[OF assms, of ty fv rest] by (simp del: map_append)

lemma slot_names_map:
  "fst ` set (map (\<lambda>(n, ty, v). (n, ty)) (xs :: (string \<times> string \<times> pyval) list)) = fst ` set xs"
  by (induction xs) auto

lemma slot_names:
  assumes "map (\<lambda>(n, ty, v). (n, ty)) (fslots :: (string \<times> string \<times> pyval) list)
           = map (\<lambda>(n, ty, v). (n, ty)) (slots :: (string \<times> string \<times> pyval) list)"
  shows "fst ` set fslots = fst ` set slots"
  using slot_names_map[of fslots] slot_names_map[of slots] assms by simp

lemma roundtrip_fields:
  assumes "\<And>n ty v rostype seed c roottype stack.
      (n, ty, v) \<in> set slots \<Longrightarrow> cache_coherent e c \<Longrightarrow> representable e rostype v seed \<Longrightarrow>
      \<exists>ser c'. from_inst e v rostype = Inr ser
         \<and> to_inst e c ser rostype roottype seed stack = (Return (read_back rostype v), c')
         \<and> cache_coherent e c'"
    and "cache_coherent e c" and "representable_fields e slots fslots"
    and "distinct (map fst (settled @ slots))"
    and "fst ` set acc \<inter> fst ` set slots = {}"
  shows "\<exists>kvs c'. from_fields e slots acc = Inr (PDict (acc @ kvs))
         \<and> to_fields e c kvs (map (\<lambda>(n, ty, v). (n, ty)) (settled @ slots)) roottype
              (PMsg t (settled @ fslots)) stack
            = (Return (PMsg t (settled @ read_back_fields slots)), c')
         \<and> cache_coherent e c'"
  using assms
proof (induction slots arbitrary: fslots settled acc c)
  case Nil
  then show ?case by (cases fslots) auto
next
  case (Cons slot slots)
  obtain n ty v where slot: "slot = (n, ty, v)" by (cases slot)
  from Cons.prems(3) slot obtain fv fslots' where
    fs: "fslots = (n, ty, fv) # fslots'" and
    rv: "representable e ty v fv" and
    rf: "representable_fields e slots fslots'"
    by (cases fslots) auto
  from Cons.prems(4) slot have nd: "n \<notin> fst ` set settled" and ns: "n \<notin> fst ` set slots"
    and d': "distinct (map fst ((settled @ [(n, ty, read_back ty v)]) @ slots))"
    by auto
  from slot_names[OF representable_fields_same_slots[OF rf]] ns
  have nf: "n \<notin> fst ` set fslots'" by simp
  from Cons.prems(5) slot have na: "n \<notin> fst ` set acc" by auto
  have mem: "(n, ty, v) \<in> set (slot # slots)" using slot by simp
  from Cons.prems(1)[OF mem Cons.prems(2) rv, of roottype "stack @ [n]"]
  obtain ser c1 where
    f: "from_inst e v ty = Inr ser" and
    t: "to_inst e c ser ty roottype fv (stack @ [n]) = (Return (read_back ty v), c1)" and
    c1: "cache_coherent e c1"
    by blast
  have a': "fst ` set (acc @ [(n, ser)]) \<inter> fst ` set slots = {}"
    using Cons.prems(5) ns slot by auto
  have fe: "map (\<lambda>(n, ty, v). (n, ty)) ((settled @ [(n, ty, read_back ty v)]) @ slots)
            = map (\<lambda>(n, ty, v). (n, ty)) (settled @ (n, ty, v) # slots)"
    by simp
  have "\<exists>kvs c'. from_fields e slots (acc @ [(n, ser)]) = Inr (PDict ((acc @ [(n, ser)]) @ kvs))
         \<and> to_fields e c1 kvs
              (map (\<lambda>(n, ty, v). (n, ty)) ((settled @ [(n, ty, read_back ty v)]) @ slots)) roottype
              (PMsg t ((settled @ [(n, ty, read_back ty v)]) @ fslots')) stack
            = (Return (PMsg t ((settled @ [(n, ty, read_back ty v)]) @ read_back_fields slots)), c')
         \<and> cache_coherent e c'"
    by (rule Cons.IH[OF _ c1 rf d' a']) (rule Cons.prems(1), auto)
  then obtain kvs c' where
    ff: "from_fields e slots (acc @ [(n, ser)]) = Inr (PDict (acc @ (n, ser) # kvs))" and
    tf: "to_fields e c1 kvs (map (\<lambda>(n, ty, v). (n, ty)) (settled @ (n, ty, v) # slots)) roottype
              (PMsg t (settled @ (n, ty, read_back ty v) # fslots')) stack
            = (Return (PMsg t (settled @ (n, ty, read_back ty v) # read_back_fields slots)), c')" and
    c': "cache_coherent e c'"
    unfolding fe by auto
  have 1: "from_fields e (slot # slots) acc = Inr (PDict (acc @ (n, ser) # kvs))"
    using slot f ff update_new_key[OF na, of ser]
    by (simp del: from_inst.simps)
  have 2: "to_fields e c ((n, ser) # kvs) (map (\<lambda>(n, ty, v). (n, ty)) (settled @ slot # slots)) roottype
              (PMsg t (settled @ fslots)) stack
            = (Return (PMsg t (settled @ read_back_fields (slot # slots))), c')"
    unfolding slot fs
    using map_of_slot_types[OF nd, of ty v slots] getattr_slot[OF nd, of t ty fv fslots'] t
      setattr_slot[OF nd nf, of t ty fv "read_back ty v"] tf
    by (simp add: Let_def del: to_inst.simps getattr.simps setattr.simps map_append)
  from 1 2 c' show ?case by blast
qed

lemma roundtrip_binary:
  assumes "rostype \<in> set ros_binary_types"
    and "standard_b64decode e (standard_b64encode e bs) = Some bs"
  shows "from_inst e (PBytes bs) rostype = Inr (PBytes (standard_b64encode e bs))
       \<and> to_inst e c (PBytes (standard_b64encode e bs)) rostype roottype seed stack
           = (Return (PBytes bs), c)"
  using assms by (simp add: from_inst.simps to_inst.simps to_binary_inst_def string_types_def)

lemma roundtrip_time:
  assumes "seed = PNone \<or> (\<exists>s' n'. seed = PTime s' n')"
  shows "from_inst e (PTime s n) ''time'' = Inr (PDict [(''secs'', s), (''nsecs'', n)])
       \<and> to_inst e c (PDict [(''secs'', s), (''nsecs'', n)]) ''time'' roottype seed stack
           = (Return (PTime s n), c)"
  using assms
  by (auto simp add: from_inst.simps to_inst.simps ros_binary_types_def ros_time_types_def
      to_time_inst_def to_time_field_def)

lemma roundtrip_duration:
  assumes "seed = PNone \<or> (\<exists>s' n'. seed = PDuration s' n')"
  shows "from_inst e (PDuration s n) ''duration'' = Inr (PDict [(''secs'', s), (''nsecs'', n)])
       \<and> to_inst e c (PDict [(''secs'', s), (''nsecs'', n)]) ''duration'' roottype seed stack
           = (Return (PDuration s n), c)"
  using assms
  by (auto simp add: from_inst.simps to_inst.simps ros_binary_types_def ros_time_types_def
      to_time_inst_def to_time_field_def)

lemma roundtrip_number:
  assumes "rostype \<in> set ros_primitive_types" and "type_of v \<in> set primitive_types"
    and "map_of type_map (name_of (type_of v)) = Some ts" and "rostype \<in> set ts"
  shows "from_inst e v rostype = Inr v
       \<and> to_inst e c v rostype roottype seed stack = (Return v, c)"
  using assms primitive_not_binary_time[OF assms(1)]
  by (simp add: from_inst.simps to_inst.simps to_primitive_inst_def type_map_item_def Let_def)

lemma roundtrip_text:
  assumes "rostype \<in> set ros_primitive_types"
    and "map_of type_map ''str'' = Some ts" and "rostype \<in> set ts"
  shows "from_inst e (PStr s) rostype = Inr (PStr s)
       \<and> to_inst e c (PStr s) rostype roottype seed stack
           = (Return (PBytes (filter (\<lambda>c. (of_char c :: nat) < 128) s)), c)"
  using assms primitive_not_binary_time[OF assms(1)]
  by (simp add: from_inst.simps to_inst.simps to_primitive_inst_def type_map_item_def Let_def
      primitive_types_def string_types_def)

lemma roundtrip_leaf:
  assumes "representable e rostype v seed"
    and "\<And>xs. v \<noteq> PList xs" and "\<And>t slots. v \<noteq> PMsg t slots"
  shows "\<exists>ser. from_inst e v rostype = Inr ser
         \<and> to_inst e c ser rostype roottype seed stack = (Return (read_back rostype v), c)"
proof (cases "rostype \<in> set ros_binary_types")
  case True
  with assms(1) obtain bs where "v = PBytes bs"
    "standard_b64decode e (standard_b64encode e bs) = Some bs"
    by (cases v) (simp_all add: representable.simps)
  with roundtrip_binary[OF True, of e bs c roottype seed stack] read_back_binary[OF True, of v]
  show ?thesis by simp
next
  case nb: False
  show ?thesis
  proof (cases "rostype \<in> set ros_time_types")
    case True
    with nb assms(1) have
      "(\<exists>s n. v = PTime s n \<and> rostype = ''time'' \<and> (seed = PNone \<or> (\<exists>s' n'. seed = PTime s' n')))
       \<or> (\<exists>s n. v = PDuration s n \<and> rostype = ''duration''
            \<and> (seed = PNone \<or> (\<exists>s' n'. seed = PDuration s' n')))"
      by (cases v; cases seed) (simp_all add: representable.simps)
    then consider
      (time) s n where "v = PTime s n" "rostype = ''time''"
        "seed = PNone \<or> (\<exists>s' n'. seed = PTime s' n')"
      | (duration) s n where "v = PDuration s n" "rostype = ''duration''"
        "seed = PNone \<or> (\<exists>s' n'. seed = PDuration s' n')"
      by blast
    then show ?thesis
    proof cases
      case time
      from roundtrip_time[OF time(3), of e s n c roottype stack] time(1,2)
        read_back_time[OF True, of v]
      show ?thesis by simp
    next
      case duration
      from roundtrip_duration[OF duration(3), of e s n c roottype stack] duration(1,2)
        read_back_time[OF True, of v]
      show ?thesis by simp
    qed
  next
    case nt: False
    show ?thesis
    proof (cases "rostype \<in> set ros_primitive_types")
      case True
      with nb nt assms(1) obtain ts where
        k: "type_of v \<in> set primitive_types \<or> type_of v = TStr" and
        m: "map_of type_map (name_of (type_of v)) = Some ts" and r: "rostype \<in> set ts"
        by (auto simp add: representable.simps split: option.splits)
      from k show ?thesis
      proof
        assume p: "type_of v \<in> set primitive_types"
        from roundtrip_number[OF True p m r, of e c roottype seed stack]
          read_back_number[OF True p]
        show ?thesis by simp
      next
        assume "type_of v = TStr"
        then obtain s where v: "v = PStr s" by (cases v) simp_all
        with m have m': "map_of type_map ''str'' = Some ts" by simp
        from roundtrip_text[OF True m' r, of e s c roottype seed stack]
          read_back_text[OF True, of s] v
        show ?thesis by simp
      qed
    next
      case False
      with nb nt assms show ?thesis
        by (cases v) (auto simp add: representable.simps)
    qed
  qed
qed

lemma roundtrip_leaf_coherent:
  assumes "representable e rostype v seed"
    and "\<forall>xs. v \<noteq> PList xs" and "\<forall>t slots. v \<noteq> PMsg t slots"
    and "cache_coherent e c"
  shows "\<exists>ser c'. from_inst e v rostype = Inr ser
         \<and> to_inst e c ser rostype roottype seed stack = (Return (read_back rostype v), c')
         \<and> cache_coherent e c'"
  using roundtrip_leaf[OF assms(1), of c roottype stack] assms(2,3,4) by blast

lemma setattr_PMsg_target:
  "setattr target k v = Inr (PMsg t fslots) \<Longrightarrow> \<exists>fslots0. target = PMsg t fslots0"
  by (cases target) (auto split: if_splits)

lemma roundtrip_msg:
  assumes "\<And>n ty v rostype seed c roottype stack.
      (n, ty, v) \<in> set slots \<Longrightarrow> cache_coherent e c \<Longrightarrow> representable e rostype v seed \<Longrightarrow>
      \<exists>ser c'. from_inst e v rostype = Inr ser
         \<and> to_inst e c ser rostype roottype seed stack = (Return (read_back rostype v), c')
         \<and> cache_coherent e c'"
    and "cache_coherent e c" and "representable e rostype (PMsg t slots) seed"
  shows "\<exists>ser c'. from_inst e (PMsg t slots) rostype = Inr ser
         \<and> to_inst e c ser rostype roottype seed stack
             = (Return (read_back rostype (PMsg t slots)), c')
         \<and> cache_coherent e c'"
proof -
  from assms(3) have nb: "rostype \<notin> set ros_binary_types" and nt: "rostype \<notin> set ros_time_types"
    and np: "rostype \<notin> set ros_primitive_types"
    by (auto simp: representable.simps primitive_types_def split: if_splits)
  let ?target = "if seed = PNone
                    then (case registry_class e rostype of
                            Inl err \<Rightarrow> None
                          | Inr cls \<Rightarrow> Some (cls_new cls))
                    else Some seed"
  from assms(3) nb nt np obtain target where tg: "?target = Some target"
    by (cases ?target) (simp_all add: representable.simps)
  let ?stamped = "if rostype \<in> set ros_header_types
                  then setattr target ''stamp'' (rostime_now e) else Inr target"
  from assms(3) nb nt np tg obtain fslots where
    st: "?stamped = Inr (PMsg t fslots)" and
    di: "distinct (map fst slots)" and
    rf: "representable_fields e slots fslots"
    by (simp add: representable.simps split: sum.splits pyval.splits)
  from st obtain fslots0 where t0: "target = PMsg t fslots0"
    using setattr_PMsg_target[of target "''stamp''" "rostime_now e" t fslots]
    by (auto split: if_splits)
  have same: "map (\<lambda>(n, ty, v). (n, ty)) fslots = map (\<lambda>(n, ty, v). (n, ty)) slots"
    by (rule representable_fields_same_slots[OF rf])
  have obj: "\<And>c1. cache_coherent e c1 \<Longrightarrow>
     \<exists>ser c'. from_inst e (PMsg t slots) rostype = Inr ser
       \<and> to_object_inst e c1 ser rostype roottype target stack = (Return (PMsg t (read_back_fields slots)), c')
       \<and> cache_coherent e c'"
  proof -
    fix c1 assume c1: "cache_coherent e c1"
    have "\<exists>kvs c'. from_fields e slots [] = Inr (PDict ([] @ kvs))
         \<and> to_fields e c1 kvs (map (\<lambda>(n, ty, v). (n, ty)) ([] @ slots)) roottype
              (PMsg t ([] @ fslots)) stack
            = (Return (PMsg t ([] @ read_back_fields slots)), c')
         \<and> cache_coherent e c'"
    proof (rule roundtrip_fields)
      show "cache_coherent e c1" by (rule c1)
      show "representable_fields e slots fslots" by (rule rf)
      show "distinct (map fst ([] @ slots))" using di by simp
      show "fst ` set [] \<inter> fst ` set slots = {}" by simp
    qed (rule assms(1))
    then obtain kvs c' where
      ff: "from_fields e slots [] = Inr (PDict kvs)" and
      tf: "to_fields e c1 kvs (map (\<lambda>(n, ty, v). (n, ty)) slots) roottype (PMsg t fslots) stack
            = (Return (PMsg t (read_back_fields slots)), c')" and
      c': "cache_coherent e c'"
      by auto
    from ff nb nt np have 1: "from_inst e (PMsg t slots) rostype = Inr (PDict kvs)"
      by (simp add: from_inst.simps from_object_inst.simps list_types_def)
    from st tf same have 2: "to_object_inst e c1 (PDict kvs) rostype roottype target stack
       = (Return (PMsg t (read_back_fields slots)), c')"
      by (simp add: to_object_inst.simps)
    from 1 2 c' show "\<exists>ser c'. from_inst e (PMsg t slots) rostype = Inr ser
       \<and> to_object_inst e c1 ser rostype roottype target stack = (Return (PMsg t (read_back_fields slots)), c')
       \<and> cache_coherent e c'"
      by blast
  qed
  have rb: "read_back rostype (PMsg t slots) = PMsg t (read_back_fields slots)"
    by (rule read_back_record[OF nb nt np])
  show ?thesis
  proof (cases "seed = PNone")
    case True
    with tg obtain cls where rc: "registry_class e rostype = Inr cls" and tc: "target = cls_new cls"
      by (auto split: sum.splits)
    from get_msg_class_coherent[OF assms(2), of rostype] rc obtain c1 where
      g: "get_msg_class e rostype c = (Inr cls, c1)" and c1: "cache_coherent e c1"
      by auto
    from obj[OF c1] obtain ser c' where
      f: "from_inst e (PMsg t slots) rostype = Inr ser" and
      o: "to_object_inst e c1 ser rostype roottype target stack = (Return (PMsg t (read_back_fields slots)), c')" and
      c': "cache_coherent e c'"
      by blast
    from True nb nt np g o tc
    have "to_inst e c ser rostype roottype seed stack = (Return (PMsg t (read_back_fields slots)), c')"
      by (simp add: to_inst.simps)
    with f c' rb show ?thesis by auto
  next
    case False
    with tg have ts: "target = seed" by simp
    from obj[OF assms(2)] obtain ser c' where
      f: "from_inst e (PMsg t slots) rostype = Inr ser" and
      o: "to_object_inst e c ser rostype roottype target stack = (Return (PMsg t (read_back_fields slots)), c')" and
      c': "cache_coherent e c'"
      by blast
    from ts t0 have sd: "seed = PMsg t fslots0" by simp
    from nb nt np o ts
    have "to_inst e c ser rostype roottype seed stack = (Return (PMsg t (read_back_fields slots)), c')"
      unfolding sd by (simp add: to_inst.simps list_types_def)
    with f c' rb show ?thesis by auto
  qed
qed

lemma roundtrip_value:
  "cache_coherent e c \<Longrightarrow> representable e rostype v seed \<Longrightarrow>
   \<exists>ser c'. from_inst e v rostype = Inr ser
      \<and> to_inst e c ser rostype roottype seed stack = (Return (read_back rostype v), c')
      \<and> cache_coherent e c'"
proof (induction v arbitrary: rostype seed c roottype stack)
  case (PList xs)
  show ?case
    by (rule roundtrip_list[OF PList.IH PList.prems])
next
  case (PMsg t slots)
  have ih: "\<And>n ty v rostype seed c roottype stack.
      (n, ty, v) \<in> set slots \<Longrightarrow> cache_coherent e c \<Longrightarrow> representable e rostype v seed \<Longrightarrow>
      \<exists>ser c'. from_inst e v rostype = Inr ser
         \<and> to_inst e c ser rostype roottype seed stack = (Return (read_back rostype v), c')
         \<and> cache_coherent e c'"
  proof -
    fix n ty v rostype seed c roottype stack
    assume m: "(n, ty, v) \<in> set slots" and c: "cache_coherent e c"
      and r: "representable e rostype v seed"
    have "(ty, v) \<in> Basic_BNFs.snds (n, ty, v)" and "v \<in> Basic_BNFs.snds (ty, v)"
      by simp_all
    from PMsg.IH[OF m this c r]
    show "\<exists>ser c'. from_inst e v rostype = Inr ser
         \<and> to_inst e c ser rostype roottype seed stack = (Return (read_back rostype v), c')
         \<and> cache_coherent e c'" .
  qed
  show ?case
    by (rule roundtrip_msg[OF ih PMsg.prems])
qed (rule roundtrip_leaf_coherent, assumption, simp, simp, assumption)+

text \<open>
  Claim C6, as amended. For a record \<open>R\<close> whose fields are representable (text fields
  included) and a fresh instance of its type, serializing \<open>R\<close> succeeds and deserializing
  the result into the fresh instance returns \<open>read_back\<close> of \<open>R\<close>: a record of the same type
  and slots in which every field is the read-back of \<open>R\<close>'s field. A time or duration
  field, the stamp of a header type included, a binary field and a number or boolean are
  \<open>R\<close>'s own value: the serialization carries the stamp, and the deserializer applies it
  over the clock value. A text field is the byte string of the ASCII characters of \<open>R\<close>'s
  text.
\<close>

theorem roundtrip_restores_record:
  assumes "cache_coherent e c"
    and "representable e t (PMsg t slots) (PMsg t fslots)"
  shows "\<exists>ser c'. extract_values e (PMsg t slots) = Inr ser
         \<and> populate_instance e c ser (PMsg t fslots)
             = (Return (PMsg t (read_back_fields slots)), c')
         \<and> (\<forall>n ty v. (n, ty, v) \<in> set slots
               \<longrightarrow> getattr (PMsg t (read_back_fields slots)) n = Inr (read_back ty v))
         \<and> (\<forall>n ty v. (n, ty, v) \<in> set slots
               \<and> (ty \<in> set ros_binary_types \<or> ty \<in> set ros_time_types
                  \<or> ty \<in> set ros_primitive_types \<and> type_of v \<in> set primitive_types)
               \<longrightarrow> getattr (PMsg t (read_back_fields slots)) n = Inr v)
         \<and> (\<forall>n ty s. (n, ty, PStr s) \<in> set slots \<and> ty \<in> set ros_primitive_types
               \<longrightarrow> getattr (PMsg t (read_back_fields slots)) n
                   = Inr (PBytes (filter (\<lambda>c. (of_char c :: nat) < 128) s)))"
proof -
  from assms(2) have nb: "t \<notin> set ros_binary_types" and nt: "t \<notin> set ros_time_types"
    and np: "t \<notin> set ros_primitive_types"
    by (auto simp: representable.simps primitive_types_def split: if_splits)
  from assms(2) nb nt np have di: "distinct (map fst slots)"
    by (auto simp add: representable.simps split: sum.splits pyval.splits if_splits)
  have rb: "read_back t (PMsg t slots) = PMsg t (read_back_fields slots)"
    by (rule read_back_record[OF nb nt np])
  from roundtrip_value[OF assms, of t "[]"] obtain ser c' where
    f: "from_inst e (PMsg t slots) t = Inr ser" and
    d: "to_inst e c ser t t (PMsg t fslots) [] = (Return (read_back t (PMsg t slots)), c')"
    by blast
  have 1: "extract_values e (PMsg t slots) = Inr ser"
    using f by (simp add: extract_values_def)
  have 2: "populate_instance e c ser (PMsg t fslots)
             = (Return (PMsg t (read_back_fields slots)), c')"
    using d rb by (simp add: populate_instance_def)
  have 3: "\<forall>n ty v. (n, ty, v) \<in> set slots
               \<longrightarrow> getattr (PMsg t (read_back_fields slots)) n = Inr (read_back ty v)"
    using read_back_fields_getattr[OF _ di] by blast
  have 4: "\<forall>n ty v. (n, ty, v) \<in> set slots
               \<and> (ty \<in> set ros_binary_types \<or> ty \<in> set ros_time_types
                  \<or> ty \<in> set ros_primitive_types \<and> type_of v \<in> set primitive_types)
               \<longrightarrow> getattr (PMsg t (read_back_fields slots)) n = Inr v"
  proof (intro allI impI, elim conjE)
    fix n ty v
    assume m: "(n, ty, v) \<in> set slots"
      and k: "ty \<in> set ros_binary_types \<or> ty \<in> set ros_time_types
                  \<or> ty \<in> set ros_primitive_types \<and> type_of v \<in> set primitive_types"
    from k have "read_back ty v = v"
    proof (elim disjE conjE)
      assume "ty \<in> set ros_binary_types"
      then show ?thesis by (rule read_back_binary)
    next
      assume "ty \<in> set ros_time_types"
      then show ?thesis by (rule read_back_time)
    next
      assume "ty \<in> set ros_primitive_types" "type_of v \<in> set primitive_types"
      then show ?thesis by (rule read_back_number)
    qed
    with read_back_fields_getattr[OF m di, of t]
    show "getattr (PMsg t (read_back_fields slots)) n = Inr v" by simp
  qed
  have 5: "\<forall>n ty s. (n, ty, PStr s) \<in> set slots \<and> ty \<in> set ros_primitive_types
               \<longrightarrow> getattr (PMsg t (read_back_fields slots)) n
                   = Inr (PBytes (filter (\<lambda>c. (of_char c :: nat) < 128) s))"
  proof (intro allI impI, elim conjE)
    fix n ty s
    assume m: "(n, ty, PStr s) \<in> set slots" and p: "ty \<in> set ros_primitive_types"
    from read_back_fields_getattr[OF m di, of t] read_back_text[OF p, of s]
    show "getattr (PMsg t (read_back_fields slots)) n
            = Inr (PBytes (filter (\<lambda>c. (of_char c :: nat) < 128) s))"
      by simp
  qed
  show ?thesis
    by (rule exI[of _ ser], rule exI[of _ c'], intro conjI) (rule 1 2 3 4 5)+
qed

lemma empty_cache_coherent: "cache_coherent e Map.empty"
  by (simp add: cache_coherent_def)

lemma ex_header_record_representable:
  "representable ex_env ''std_msgs/Header''
     (PMsg ''std_msgs/Header''
       [(''seq'', ''uint32'', PInt 1),
        (''stamp'', ''time'', PTime (PInt 5) (PInt 7)),
        (''frame_id'', ''string'', PStr ''base'')])
     (PMsg ''std_msgs/Header''
       [(''seq'', ''uint32'', PInt 0),
        (''stamp'', ''time'', PTime (PInt 0) (PInt 0)),
        (''frame_id'', ''string'', PStr [])])"
  by (simp add: representable.simps constants_defs example_defs)

lemma ex_sample_representable:
  "representable ex_env ''ex_msgs/Sample'' ex_sample ex_sample_fresh"
  by (simp add: representable.simps ex_sample_def ex_sample_fresh_def constants_defs
      example_defs registry_class_def splittype_def load_class_def)

lemma ex_sample_read_back:
  "read_back ''ex_msgs/Sample'' ex_sample
   = PMsg ''ex_msgs/Sample''
     [(''header'', ''std_msgs/Header'',
         PMsg ''std_msgs/Header''
           [(''seq'', ''uint32'', PInt 3),
            (''stamp'', ''time'', PTime (PInt 5) (PInt 7)),
            (''frame_id'', ''string'', PBytes ''base'')]),
      (''valid'', ''bool'', PBool True),
      (''position'', ''geometry_msgs/Point'',
         PMsg ''geometry_msgs/Point''
           [(''x'', ''float64'', PInt 1), (''y'', ''float64'', PFloat 2), (''z'', ''float64'', PFloat 3)]),
      (''counts'', ''int32[]'', PList [PInt 1, PInt 2]),
      (''waypoints'', ''geometry_msgs/Point[]'',
         PList [PMsg ''geometry_msgs/Point''
           [(''x'', ''float64'', PInt 4), (''y'', ''float64'', PFloat 5), (''z'', ''float64'', PFloat 6)]]),
      (''payload'', ''uint8[]'', PBytes ''hi''),
      (''elapsed'', ''duration'', PDuration (PInt 1) (PInt 2))]"
  by (simp add: read_back.simps ex_sample_def constants_defs)

theorem roundtrip_restores_record_witness:
  "cache_coherent ex_env Map.empty
   \<and> representable ex_env ''std_msgs/Header''
       (PMsg ''std_msgs/Header''
         [(''seq'', ''uint32'', PInt 1),
          (''stamp'', ''time'', PTime (PInt 5) (PInt 7)),
          (''frame_id'', ''string'', PStr ''base'')])
       (PMsg ''std_msgs/Header''
         [(''seq'', ''uint32'', PInt 0),
          (''stamp'', ''time'', PTime (PInt 0) (PInt 0)),
          (''frame_id'', ''string'', PStr [])])
   \<and> (\<exists>ser c'. extract_values ex_env
          (PMsg ''std_msgs/Header''
            [(''seq'', ''uint32'', PInt 1),
             (''stamp'', ''time'', PTime (PInt 5) (PInt 7)),
             (''frame_id'', ''string'', PStr ''base'')]) = Inr ser
        \<and> populate_instance ex_env Map.empty ser
            (PMsg ''std_msgs/Header''
              [(''seq'', ''uint32'', PInt 0),
               (''stamp'', ''time'', PTime (PInt 0) (PInt 0)),
               (''frame_id'', ''string'', PStr [])])
          = (Return (PMsg ''std_msgs/Header''
               [(''seq'', ''uint32'', PInt 1),
                (''stamp'', ''time'', PTime (PInt 5) (PInt 7)),
                (''frame_id'', ''string'', PBytes ''base'')]), c'))
   \<and> ''time'' \<in> set ros_time_types
   \<and> ''string'' \<in> set ros_primitive_types
   \<and> getattr (PMsg ''std_msgs/Header''
         [(''seq'', ''uint32'', PInt 1),
          (''stamp'', ''time'', PTime (PInt 5) (PInt 7)),
          (''frame_id'', ''string'', PBytes ''base'')]) ''stamp''
       = Inr (PTime (PInt 5) (PInt 7))
   \<and> getattr (PMsg ''std_msgs/Header''
         [(''seq'', ''uint32'', PInt 1),
          (''stamp'', ''time'', PTime (PInt 5) (PInt 7)),
          (''frame_id'', ''string'', PBytes ''base'')]) ''frame_id''
       = Inr (PBytes ''base'')
   \<and> representable ex_env ''ex_msgs/Sample'' ex_sample ex_sample_fresh
   \<and> (\<exists>ser c'. extract_values ex_env ex_sample = Inr ser
        \<and> populate_instance ex_env Map.empty ser ex_sample_fresh
          = (Return (read_back ''ex_msgs/Sample'' ex_sample), c'))"
proof -
  let ?slots = "[(''seq'', ''uint32'', PInt 1),
          (''stamp'', ''time'', PTime (PInt 5) (PInt 7)),
          (''frame_id'', ''string'', PStr ''base'')]"
  have tt: "''time'' \<in> set ros_time_types" and ts: "''string'' \<in> set ros_primitive_types"
    by (simp_all add: constants_defs)
  have fl: "read_back_fields ?slots
      = [(''seq'', ''uint32'', PInt 1),
          (''stamp'', ''time'', PTime (PInt 5) (PInt 7)),
          (''frame_id'', ''string'', PBytes ''base'')]"
    by (simp add: read_back.simps constants_defs)
  from roundtrip_restores_record[OF empty_cache_coherent ex_header_record_representable]
  obtain ser c' where
    a: "extract_values ex_env (PMsg ''std_msgs/Header'' ?slots) = Inr ser" and
    b: "populate_instance ex_env Map.empty ser
            (PMsg ''std_msgs/Header''
              [(''seq'', ''uint32'', PInt 0),
               (''stamp'', ''time'', PTime (PInt 0) (PInt 0)),
               (''frame_id'', ''string'', PStr [])])
          = (Return (PMsg ''std_msgs/Header'' (read_back_fields ?slots)), c')" and
    g: "\<forall>n ty v. (n, ty, v) \<in> set ?slots
               \<and> (ty \<in> set ros_binary_types \<or> ty \<in> set ros_time_types
                  \<or> ty \<in> set ros_primitive_types \<and> type_of v \<in> set primitive_types)
               \<longrightarrow> getattr (PMsg ''std_msgs/Header'' (read_back_fields ?slots)) n = Inr v" and
    h: "\<forall>n ty s. (n, ty, PStr s) \<in> set ?slots \<and> ty \<in> set ros_primitive_types
               \<longrightarrow> getattr (PMsg ''std_msgs/Header'' (read_back_fields ?slots)) n
                   = Inr (PBytes (filter (\<lambda>c. (of_char c :: nat) < 128) s))"
    by blast
  have 1: "\<exists>ser c'. extract_values ex_env (PMsg ''std_msgs/Header'' ?slots) = Inr ser
        \<and> populate_instance ex_env Map.empty ser
            (PMsg ''std_msgs/Header''
              [(''seq'', ''uint32'', PInt 0),
               (''stamp'', ''time'', PTime (PInt 0) (PInt 0)),
               (''frame_id'', ''string'', PStr [])])
          = (Return (PMsg ''std_msgs/Header''
               [(''seq'', ''uint32'', PInt 1),
                (''stamp'', ''time'', PTime (PInt 5) (PInt 7)),
                (''frame_id'', ''string'', PBytes ''base'')]), c')"
    using a b unfolding fl by blast
  have m: "(''stamp'', ''time'', PTime (PInt 5) (PInt 7)) \<in> set ?slots" by simp
  from g m tt have "getattr (PMsg ''std_msgs/Header'' (read_back_fields ?slots)) ''stamp''
       = Inr (PTime (PInt 5) (PInt 7))"
    by blast
  then have 2: "getattr (PMsg ''std_msgs/Header''
         [(''seq'', ''uint32'', PInt 1),
          (''stamp'', ''time'', PTime (PInt 5) (PInt 7)),
          (''frame_id'', ''string'', PBytes ''base'')]) ''stamp''
       = Inr (PTime (PInt 5) (PInt 7))"
    unfolding fl .
  have m': "(''frame_id'', ''string'', PStr ''base'') \<in> set ?slots" by simp
  from h m' ts have "getattr (PMsg ''std_msgs/Header'' (read_back_fields ?slots)) ''frame_id''
       = Inr (PBytes (filter (\<lambda>c. (of_char c :: nat) < 128) ''base''))"
    by blast
  then have 3: "getattr (PMsg ''std_msgs/Header''
         [(''seq'', ''uint32'', PInt 1),
          (''stamp'', ''time'', PTime (PInt 5) (PInt 7)),
          (''frame_id'', ''string'', PBytes ''base'')]) ''frame_id''
       = Inr (PBytes ''base'')"
    unfolding fl by simp
  have sb: "read_back ''ex_msgs/Sample'' ex_sample
      = PMsg ''ex_msgs/Sample'' (read_back_fields (case ex_sample of PMsg t slots \<Rightarrow> slots))"
    by (simp add: read_back.simps ex_sample_def constants_defs del: read_back_fields.simps)
  from roundtrip_restores_record[OF empty_cache_coherent
      ex_sample_representable[unfolded ex_sample_def ex_sample_fresh_def]]
  obtain ser2 c2 where
    a2: "extract_values ex_env ex_sample = Inr ser2" and
    b2: "populate_instance ex_env Map.empty ser2 ex_sample_fresh
          = (Return (PMsg ''ex_msgs/Sample''
               (read_back_fields (case ex_sample of PMsg t slots \<Rightarrow> slots))), c2)"
    unfolding ex_sample_def ex_sample_fresh_def pyval.case by blast
  from a2 b2 have 4: "\<exists>ser c'. extract_values ex_env ex_sample = Inr ser
        \<and> populate_instance ex_env Map.empty ser ex_sample_fresh
          = (Return (read_back ''ex_msgs/Sample'' ex_sample), c')"
    unfolding sb by blast
  from empty_cache_coherent[of ex_env] ex_header_record_representable 1 tt ts 2 3
    ex_sample_representable 4
  show ?thesis by (intro conjI)
qed

text \<open>
  Claim C6 as stated fails: a header stamped 5 seconds and 7 nanoseconds comes back from the
  round trip with that stamp, while the clock reads 100 seconds. Its text field comes back
  as a byte string.
\<close>

theorem header_roundtrip_keeps_stamp:
  "extract_values ex_env (PMsg ''std_msgs/Header''
       [(''seq'', ''uint32'', PInt 1),
        (''stamp'', ''time'', PTime (PInt 5) (PInt 7)),
        (''frame_id'', ''string'', PStr ''base'')])
     = Inr (PDict [(''seq'', PInt 1),
                   (''stamp'', PDict [(''secs'', PInt 5), (''nsecs'', PInt 7)]),
                   (''frame_id'', PStr ''base'')])
   \<and> populate_instance ex_env Map.empty
        (PDict [(''seq'', PInt 1),
                (''stamp'', PDict [(''secs'', PInt 5), (''nsecs'', PInt 7)]),
                (''frame_id'', PStr ''base'')])
        ex_header
     = (Return (PMsg ''std_msgs/Header''
          [(''seq'', ''uint32'', PInt 1),
           (''stamp'', ''time'', PTime (PInt 5) (PInt 7)),
           (''frame_id'', ''string'', PBytes ''base'')]),
        Map.empty)
   \<and> rostime_now ex_env = PTime (PInt 100) (PInt 0)"
  by (simp add: extract_values_def populate_instance_def from_inst.simps
      from_object_inst.simps to_inst.simps to_object_inst.simps constants_defs example_defs
      to_time_inst_def to_time_field_def to_primitive_inst_def Let_def)

lemma ex_sample_serialized:
  "extract_values ex_env ex_sample
   = Inr (PDict
       [(''header'',
         PDict [(''seq'', PInt 3),
                (''stamp'', PDict [(''secs'', PInt 5), (''nsecs'', PInt 7)]),
                (''frame_id'', PStr ''base'')]),
        (''valid'', PBool True),
        (''position'', PDict [(''x'', PInt 1), (''y'', PFloat 2), (''z'', PFloat 3)]),
        (''counts'', PList [PInt 1, PInt 2]),
        (''waypoints'',
         PList [PDict [(''x'', PInt 4), (''y'', PFloat 5), (''z'', PFloat 6)]]),
        (''payload'', PBytes ''aGk=''),
        (''elapsed'', PDict [(''secs'', PInt 1), (''nsecs'', PInt 2)])])"
  by (simp add: extract_values_def ex_sample_def from_inst.simps from_list_inst.simps
      from_object_inst.simps constants_defs example_defs Let_def)

end
